theory Spec2Isabelle
  imports Complex_Main
begin

section \<open>A client for TAP services: the model\<close>

text \<open>
  The theory embeds \<^verbatim>\<open>tap.py\<close>. Objects are records that are passed in and returned
  updated, and every exception of the Python is a value \<open>Inl e\<close> of a sum type. What the
  module does to the outside world (HTTP requests, sleeping, printing) is appended to a
  trace of events. The collaborators that are not part of the module (the remote servers,
  the XML and VOTable parsers, \<^verbatim>\<open>urlencode\<close>, \<^verbatim>\<open>float\<close>, the notebook's
  \<^verbatim>\<open>display\<close>) are parameters.
\<close>

subsection \<open>Exceptions and Python's list and string primitives\<close>

datatype error =
    TypeError
  | AttributeError
  | IndexError
  | ValueError
  | ConnectionError
  | ParseError

text \<open>\<^verbatim>\<open>xs[i]\<close>: the indices \<open>-len(xs) .. -1\<close> read from the end; any other index outside the list raises.\<close>

definition getitem :: "'a list \<Rightarrow> int \<Rightarrow> error + 'a" where
  "getitem xs i =
     (if 0 \<le> i \<and> i < int (length xs) then Inr (xs ! nat i)
      else if i < 0 \<and> - int (length xs) \<le> i then Inr (xs ! nat (int (length xs) + i))
      else Inl IndexError)"

text \<open>\<^verbatim>\<open>s.rfind(c)\<close> for a one-character \<open>c\<close>: the highest index of \<open>c\<close>, or \<open>-1\<close>.\<close>

definition rfind :: "string \<Rightarrow> char \<Rightarrow> int" where
  "rfind s c =
     (case filter (\<lambda>i. s ! i = c) (rev [0..<length s]) of
        [] \<Rightarrow> - 1
      | i # _ \<Rightarrow> int i)"

text \<open>\<^verbatim>\<open>s[k:]\<close>: a negative \<open>k\<close> counts from the end, and the bounds are clipped.\<close>

definition slice_from :: "'a list \<Rightarrow> int \<Rightarrow> 'a list" where
  "slice_from s k = (if k < 0 then drop (nat (int (length s) + k)) s else drop (nat k) s)"

text \<open>\<^verbatim>\<open>str(n)\<close> for a non-negative integer.\<close>

fun str_nat :: "nat \<Rightarrow> string" where
  "str_nat n = (if n < 10 then [''0123456789'' ! n]
                else str_nat (n div 10) @ [''0123456789'' ! (n mod 10)])"

declare str_nat.simps [simp del]

subsection \<open>The format \<^verbatim>\<open>%.3g\<close>\<close>

text \<open>
  Durations are floats in the Python; here they are real numbers, and the arithmetic and
  \<^verbatim>\<open>math.log10\<close> are exact. \<open>format_g p x\<close> is the conversion \<^verbatim>\<open>"%.<p>g" % x\<close> of a
  finite value: \<open>x\<close> is rounded to \<open>p\<close> significant digits (ties to even), written in
  fixed notation when the decimal exponent \<open>e\<close> of the rounded value has \<open>-4 \<le> e < p\<close>
  and in exponent notation otherwise, without trailing zeros.
\<close>

definition round_half_even :: "real \<Rightarrow> int" where
  "round_half_even x =
     (let f = \<lfloor>x\<rfloor>; r = x - of_int f
      in if r < 1 / 2 then f else if 1 / 2 < r then f + 1 else if even f then f else f + 1)"

definition pow10 :: "int \<Rightarrow> real" where
  "pow10 k = (if 0 \<le> k then 10 ^ nat k else 1 / 10 ^ nat (- k))"

definition strip_zeros :: "string \<Rightarrow> string" where
  "strip_zeros s = rev (dropWhile (\<lambda>c. c = CHR ''0'') (rev s))"

definition format_g :: "nat \<Rightarrow> real \<Rightarrow> string" where
  "format_g prec x =
     (let p = (if prec = 0 then 1 else prec);
          a = \<bar>x\<bar>;
          sgn = (if x < 0 then ''-'' else [])
      in if a = 0 then sgn @ ''0''
         else
          (let e0 = \<lfloor>log 10 a\<rfloor>;
               m0 = round_half_even (a / pow10 (e0 - int p + 1));
               m = (if m0 = 10 ^ p then 10 ^ (p - 1) else m0);
               e = (if m0 = 10 ^ p then e0 + 1 else e0);
               ds = str_nat (nat m)
           in if - 4 \<le> e \<and> e < int p
              then
               (let ip = (if 0 \<le> e then take (nat e + 1) ds else ''0'');
                    fp = strip_zeros (if 0 \<le> e then drop (nat e + 1) ds
                                      else replicate (nat (- e - 1)) CHR ''0'' @ ds)
                in sgn @ ip @ (if fp = [] then [] else ''.'' @ fp))
              else
               (let fp = strip_zeros (drop 1 ds);
                    ex = str_nat (nat \<bar>e\<bar>)
                in sgn @ take 1 ds @ (if fp = [] then [] else ''.'' @ fp) @ ''e''
                   @ (if e < 0 then ''-'' else ''+'')
                   @ (if length ex < 2 then ''0'' @ ex else ex))))"

subsection \<open>\<^verbatim>\<open>_pretty_print_time\<close>\<close>

text \<open>
  The module-level function. \<open>order\<close> is a Python integer used as a list index, so the
  two lookups are \<open>getitem\<close>.
\<close>

definition pretty_print_time :: "real \<Rightarrow> error + string" where
  "pretty_print_time t =
     (let units = [''s'', ''ms'', ''us'', ''ns''];
          scaling = [1, 10 ^ 3, 10 ^ 6, 10 ^ 9];
          order = (if 0 < t \<and> t < 1000 then min (- (\<lfloor>log 10 t\<rfloor> div 3)) 3
                   else if 1000 \<le> t then 0
                   else 3)
      in case getitem scaling order of
           Inl e \<Rightarrow> Inl e
         | Inr s \<Rightarrow>
            (case getitem units order of
               Inl e \<Rightarrow> Inl e
             | Inr u \<Rightarrow> Inr (format_g 3 (t * s) @ '' '' @ u)))"

subsection \<open>The outside world\<close>

text \<open>
  A request is made either through \<^verbatim>\<open>HTTPConnection(host, port).request(method, url,
  body, headers)\<close> or through \<^verbatim>\<open>requests.post(url, data)\<close>.
\<close>

datatype http_request =
    HTTPConnection_request string nat string string "string option" "(string \<times> string) list"
  | requests_post string "(string \<times> string) list"

datatype event =
    Sent http_request
  | Slept real
  | Printed string

text \<open>What the module reads of a response object.\<close>

record http_response =
  resp_status :: nat
  resp_reason :: string
  getheader :: "string \<Rightarrow> string option"
  resp_body :: string

text \<open>A parsed document of \<^verbatim>\<open>xml.dom.minidom\<close>: element nodes and text nodes.\<close>

datatype dom =
    Element string "dom list"
  | Text string

text \<open>An element of \<^verbatim>\<open>lxml.etree\<close>: its tag, the text before its first child, its children.\<close>

datatype etree = ETree (tag: string) (elem_text: "string option") (children: "etree list")

text \<open>
  The server answers a request, or the connection fails; its answer may depend on everything
  that happened before (the trace).
\<close>

record 'tab env =
  server :: "event list \<Rightarrow> http_request \<Rightarrow> error + http_response"
  urlencode :: "(string \<times> string) list \<Rightarrow> string"
  parseString :: "string \<Rightarrow> error + dom"
  toxml :: "dom \<Rightarrow> string"
  Table_read :: "string \<Rightarrow> error + 'tab"
  fromstring :: "string \<Rightarrow> error + etree"
  float :: "string \<Rightarrow> error + real"

text \<open>\<^verbatim>\<open>getElementsByTagName\<close>: the elements of that name, in document order.\<close>

fun elements :: "dom \<Rightarrow> dom list" where
  "elements (Element n cs) = Element n cs # concat (map elements cs)"
| "elements (Text d) = []"

definition getElementsByTagName :: "dom \<Rightarrow> string \<Rightarrow> dom list" where
  "getElementsByTagName d name =
     filter (\<lambda>x. case x of Element n cs \<Rightarrow> n = name | Text t \<Rightarrow> False) (elements d)"

fun firstChild :: "dom \<Rightarrow> dom option" where
  "firstChild (Element n []) = None"
| "firstChild (Element n (c # cs)) = Some c"
| "firstChild (Text d) = None"

subsection \<open>\<^verbatim>\<open>TAP_AsyncQuery\<close>\<close>

record TAP_AsyncQuery =
  adql :: string
  host :: string
  port :: nat
  path :: string
  location :: "string option"
  jobid :: "string option"
  response :: "http_response option"
  data :: "string option"

definition TAP_AsyncQuery_init :: "string \<Rightarrow> string \<Rightarrow> string \<Rightarrow> nat \<Rightarrow> TAP_AsyncQuery" where
  "TAP_AsyncQuery_init adql_query h p n =
     \<lparr>adql = adql_query, host = h, port = n, path = p,
      location = None, jobid = None, response = None, data = None\<rparr>"

text \<open>
  \<^verbatim>\<open>submit\<close>. A missing \<open>location\<close> header makes \<^verbatim>\<open>self.location\<close> \<open>None\<close>, and
  \<^verbatim>\<open>self.location.rfind\<close> raises.
\<close>

definition submit ::
  "'tab env \<Rightarrow> bool \<Rightarrow> TAP_AsyncQuery \<Rightarrow> event list
    \<Rightarrow> (error + unit) \<times> TAP_AsyncQuery \<times> event list" where
  "submit env silent q tr =
     (let headers = [(''Content-type'', ''application/x-www-form-urlencoded''),
                     (''Accept'', ''text/plain'')];
          form = [(''query'', adql q), (''request'', ''doQuery''), (''lang'', ''adql''),
                  (''format'', ''votable''), (''phase'', ''run'')];
          rq = HTTPConnection_request (host q) (port q) ''POST'' (path q)
                 (Some (urlencode env form)) headers;
          tr1 = tr @ [Sent rq]
      in case server env tr rq of
           Inl e \<Rightarrow> (Inl e, q, tr1)
         | Inr r \<Rightarrow>
            (let q1 = q\<lparr>response := Some r\<rparr>;
                 q2 = q1\<lparr>location := getheader r ''location''\<rparr>
             in case location q2 of
                  None \<Rightarrow> (Inl AttributeError, q2, tr1)
                | Some loc \<Rightarrow>
                   (let j = slice_from loc (rfind loc CHR ''/'' + 1);
                        q3 = q2\<lparr>jobid := Some j\<rparr>
                    in if \<not> silent
                       then (Inr (), q3,
                             tr1 @ [Printed (''Query Status: '' @ str_nat (resp_status r)
                                              @ '' '' @ ''Reason: '' @ resp_reason r),
                                    Printed (''Location: '' @ loc),
                                    Printed (''Job id: '' @ j)])
                       else (Inr (), q3, tr1))))"

text \<open>
  The property \<^verbatim>\<open>status\<close>. With no job identifier the concatenation
  \<^verbatim>\<open>self.path + "/" + self.jobid\<close> raises before anything is sent.
\<close>

definition status ::
  "'tab env \<Rightarrow> TAP_AsyncQuery \<Rightarrow> event list
    \<Rightarrow> (error + string) \<times> TAP_AsyncQuery \<times> event list" where
  "status env q tr =
     (case jobid q of
        None \<Rightarrow> (Inl TypeError, q, tr)
      | Some j \<Rightarrow>
         (let rq = HTTPConnection_request (host q) (port q) ''GET'' (path q @ ''/'' @ j) None [];
              tr1 = tr @ [Sent rq]
          in case server env tr rq of
               Inl e \<Rightarrow> (Inl e, q, tr1)
             | Inr r \<Rightarrow>
                (let q1 = q\<lparr>response := Some r\<rparr>
                 in case parseString env (resp_body r) of
                      Inl e \<Rightarrow> (Inl e, q1, tr1)
                    | Inr d \<Rightarrow>
                       (case getitem (getElementsByTagName d ''uws:phase'') 0 of
                          Inl e \<Rightarrow> (Inl e, q1, tr1)
                        | Inr phase_element \<Rightarrow>
                           (case firstChild phase_element of
                              None \<Rightarrow> (Inl AttributeError, q1, tr1)
                            | Some phase_value_element \<Rightarrow>
                               (Inr (toxml env phase_value_element), q1, tr1))))))"

definition finished ::
  "'tab env \<Rightarrow> TAP_AsyncQuery \<Rightarrow> event list
    \<Rightarrow> (error + bool) \<times> TAP_AsyncQuery \<times> event list" where
  "finished env q tr =
     (case status env q tr of
        (Inl e, q1, tr1) \<Rightarrow> (Inl e, q1, tr1)
      | (Inr phase, q1, tr1) \<Rightarrow> (Inr (phase = ''COMPLETED''), q1, tr1))"

text \<open>
  \<^verbatim>\<open>get\<close>, in two parts. First the loop
  \<^verbatim>\<open>while (not self.finished) & wait: time.sleep(sleep)\<close>,
  which may run forever: \<open>None\<close> is the loop that never ends.
  \<^verbatim>\<open>time.sleep\<close> raises on a negative argument.
\<close>

partial_function (option) get_while ::
  "'tab env \<Rightarrow> real \<Rightarrow> bool \<Rightarrow> TAP_AsyncQuery \<Rightarrow> event list
    \<Rightarrow> ((error + unit) \<times> TAP_AsyncQuery \<times> event list) option" where
  "get_while env sleep wait q tr =
     (case finished env q tr of
        (Inl e, q1, tr1) \<Rightarrow> Some (Inl e, q1, tr1)
      | (Inr fin, q1, tr1) \<Rightarrow>
         if (\<not> fin) \<and> wait
         then (if sleep < 0 then Some (Inl ValueError, q1, tr1)
               else get_while env sleep wait q1 (tr1 @ [Slept sleep]))
         else Some (Inr (), q1, tr1))"

text \<open>Then the rest of the body, from \<^verbatim>\<open>if not self.finished: return\<close> on.\<close>

definition get_results ::
  "'tab env \<Rightarrow> TAP_AsyncQuery \<Rightarrow> event list
    \<Rightarrow> (error + 'tab option) \<times> TAP_AsyncQuery \<times> event list" where
  "get_results env q tr =
     (case finished env q tr of
        (Inl e, q1, tr1) \<Rightarrow> (Inl e, q1, tr1)
      | (Inr fin, q1, tr1) \<Rightarrow>
         if \<not> fin then (Inr None, q1, tr1)
         else
          (case jobid q1 of
             None \<Rightarrow> (Inl TypeError, q1, tr1)
           | Some j \<Rightarrow>
              (let rq = HTTPConnection_request (host q1) (port q1) ''GET''
                          (path q1 @ ''/'' @ j @ ''/results/result'') None [];
                   tr2 = tr1 @ [Sent rq]
               in case server env tr1 rq of
                    Inl e \<Rightarrow> (Inl e, q1, tr2)
                  | Inr r \<Rightarrow>
                     (let q2 = q1\<lparr>response := Some r\<rparr>;
                          q3 = q2\<lparr>data := Some (resp_body r)\<rparr>
                      in case Table_read env (resp_body r) of
                           Inl e \<Rightarrow> (Inl e, q3, tr2)
                         | Inr table \<Rightarrow> (Inr (Some table), q3, tr2)))))"

definition get ::
  "'tab env \<Rightarrow> real \<Rightarrow> bool \<Rightarrow> TAP_AsyncQuery \<Rightarrow> event list
    \<Rightarrow> ((error + 'tab option) \<times> TAP_AsyncQuery \<times> event list) option" where
  "get env sleep wait q tr =
     (case get_while env sleep wait q tr of
        None \<Rightarrow> None
      | Some (Inl e, q1, tr1) \<Rightarrow> Some (Inl e, q1, tr1)
      | Some (Inr u, q1, tr1) \<Rightarrow> Some (get_results env q1 tr1))"

text \<open>
  The polls of the waiting loop, one by one: \<open>poll env sleep q tr n\<close> is what the property
  \<^verbatim>\<open>status\<close> gives the \<open>n\<close>-th time the loop of \<^verbatim>\<open>get(sleep, wait=True)\<close> reads it
  (counting from 0), and \<open>None\<close> when the loop has ended before.
\<close>

fun poll ::
  "'tab env \<Rightarrow> real \<Rightarrow> TAP_AsyncQuery \<Rightarrow> event list \<Rightarrow> nat \<Rightarrow> (error + string) option" where
  "poll env sleep q tr 0 = Some (fst (status env q tr))"
| "poll env sleep q tr (Suc n) =
     (case status env q tr of
        (Inl e, q1, tr1) \<Rightarrow> None
      | (Inr phase, q1, tr1) \<Rightarrow>
         if phase = ''COMPLETED'' \<or> sleep < 0 then None
         else poll env sleep q1 (tr1 @ [Slept sleep]) n)"

text \<open>
  Names for the requests of a job, as \<^verbatim>\<open>submit\<close>, \<^verbatim>\<open>status\<close> and \<^verbatim>\<open>get\<close> build
  them: the submission, and for a job with identifier \<open>j\<close> the poll of the job resource and
  the fetch of its result.
\<close>

definition submit_request :: "'tab env \<Rightarrow> TAP_AsyncQuery \<Rightarrow> http_request" where
  "submit_request env q =
     HTTPConnection_request (host q) (port q) ''POST'' (path q)
       (Some (urlencode env [(''query'', adql q), (''request'', ''doQuery''), (''lang'', ''adql''),
                             (''format'', ''votable''), (''phase'', ''run'')]))
       [(''Content-type'', ''application/x-www-form-urlencoded''), (''Accept'', ''text/plain'')]"

definition status_request :: "TAP_AsyncQuery \<Rightarrow> string \<Rightarrow> http_request" where
  "status_request q j =
     HTTPConnection_request (host q) (port q) ''GET'' (path q @ ''/'' @ j) None []"

definition results_request :: "TAP_AsyncQuery \<Rightarrow> string \<Rightarrow> http_request" where
  "results_request q j =
     HTTPConnection_request (host q) (port q) ''GET''
       (path q @ ''/'' @ j @ ''/results/result'') None []"

subsection \<open>\<^verbatim>\<open>TAP_Service\<close> and its presets\<close>

text \<open>
  \<^verbatim>\<open>TAP_Service.__init__\<close> sets \<open>host\<close>, \<open>port\<close> and \<open>path\<close>; the attribute
  \<open>response\<close> exists only once \<^verbatim>\<open>query\<close> has stored a response it could not parse.
\<close>

record TAP_Service =
  host :: string
  port :: nat
  path :: string
  response :: "http_response option"

definition TAP_Service_init :: "string \<Rightarrow> string \<Rightarrow> nat \<Rightarrow> TAP_Service" where
  "TAP_Service_init h p n = \<lparr>host = h, port = n, path = p, response = None\<rparr>"

text \<open>\<^verbatim>\<open>"http://{s.host:s}{s.path:s}".format(s=self)\<close>\<close>

definition tap_endpoint :: "TAP_Service \<Rightarrow> string" where
  "tap_endpoint s = ''http://'' @ host s @ path s"

definition TAPVizieR :: TAP_Service where
  "TAPVizieR = TAP_Service_init ''tapvizier.u-strasbg.fr'' ''/TAPVizieR/tap'' 80"

definition GaiaArchive :: TAP_Service where
  "GaiaArchive = TAP_Service_init ''gea.esac.esa.int'' ''/tap-server/tap'' 80"

text \<open>
  \<^verbatim>\<open>q.submit(**kwargs)\<close>: the keyword arguments are a dictionary from names to values. The
  only keyword \<^verbatim>\<open>submit\<close> accepts is \<open>silent\<close> (default \<open>False\<close>); any other name is a
  \<open>TypeError\<close> of the call, raised before the body runs.
\<close>

definition submit_kwargs ::
  "'tab env \<Rightarrow> (string \<times> bool) list \<Rightarrow> TAP_AsyncQuery \<Rightarrow> event list
    \<Rightarrow> (error + unit) \<times> TAP_AsyncQuery \<times> event list" where
  "submit_kwargs env kwargs q tr =
     (if list_ex (\<lambda>kv. fst kv \<noteq> ''silent'') kwargs then (Inl TypeError, q, tr)
      else submit env (case map_of kwargs ''silent'' of None \<Rightarrow> False | Some b \<Rightarrow> b) q tr)"

definition query_async ::
  "'tab env \<Rightarrow> TAP_Service \<Rightarrow> string \<Rightarrow> bool \<Rightarrow> (string \<times> bool) list \<Rightarrow> event list
    \<Rightarrow> (error + TAP_AsyncQuery) \<times> event list" where
  "query_async env s adql_query sub kwargs tr =
     (let q = TAP_AsyncQuery_init adql_query (host s) (path s @ ''/async'') (port s)
      in if sub
         then (case submit_kwargs env kwargs q tr of
                 (Inl e, q1, tr1) \<Rightarrow> (Inl e, tr1)
               | (Inr u, q1, tr1) \<Rightarrow> (Inr q1, tr1))
         else (Inr q, tr))"

text \<open>
  \<^verbatim>\<open>query\<close> returns a table, a job, or nothing. Whatever is raised inside the
  \<^verbatim>\<open>try\<close> block is caught by the bare \<^verbatim>\<open>except\<close>.
\<close>

datatype 'tab query_result =
    Table 'tab
  | Job TAP_AsyncQuery
  | Nothing

definition query ::
  "'tab env \<Rightarrow> TAP_Service \<Rightarrow> string \<Rightarrow> bool \<Rightarrow> event list
    \<Rightarrow> (error + 'tab query_result) \<times> TAP_Service \<times> event list" where
  "query env s adql_query sync tr =
     (if sync
      then
       (let rq = requests_post (tap_endpoint s @ ''/sync'')
                   [(''query'', adql_query), (''request'', ''doQuery''), (''lang'', ''adql''),
                    (''format'', ''votable''), (''phase'', ''run'')];
            tr1 = tr @ [Sent rq]
        in case server env tr rq of
             Inl e \<Rightarrow> (Inl e, s, tr1)
           | Inr r \<Rightarrow>
              (case Table_read env (resp_body r) of
                 Inr table \<Rightarrow> (Inr (Table table), s, tr1)
               | Inl e \<Rightarrow> (Inr Nothing, s\<lparr>response := Some r\<rparr>, tr1)))
      else
       (case query_async env s adql_query True [] tr of
          (Inl e, tr1) \<Rightarrow> (Inl e, s, tr1)
        | (Inr q, tr1) \<Rightarrow> (Inr (Job q), s, tr1)))"

text \<open>A name for the request of a synchronous query, as \<^verbatim>\<open>query\<close> builds it.\<close>

definition sync_request :: "TAP_Service \<Rightarrow> string \<Rightarrow> http_request" where
  "sync_request s adql_query =
     requests_post (tap_endpoint s @ ''/sync'')
       [(''query'', adql_query), (''request'', ''doQuery''), (''lang'', ''adql''),
        (''format'', ''votable''), (''phase'', ''run'')]"

subsection \<open>\<^verbatim>\<open>resolve\<close>\<close>

text \<open>
  The XPath expressions of \<^verbatim>\<open>resolve\<close> are absolute location paths whose steps select
  child elements by name, one of them with the position predicate \<open>[1]\<close>. A step is a name
  and an optional position; \<open>xpath\<close> returns the selected elements in document order.
\<close>

definition select_step :: "string \<times> nat option \<Rightarrow> etree \<Rightarrow> etree list" where
  "select_step st node =
     (let cs = filter (\<lambda>c. tag c = fst st) (children node)
      in case snd st of
           None \<Rightarrow> cs
         | Some k \<Rightarrow> (if 1 \<le> k \<and> k \<le> length cs then [cs ! (k - 1)] else []))"

fun xpath_steps :: "(string \<times> nat option) list \<Rightarrow> etree list \<Rightarrow> etree list" where
  "xpath_steps [] nodes = nodes"
| "xpath_steps (st # sts) nodes = xpath_steps sts (concat (map (select_step st) nodes))"

definition xpath :: "etree \<Rightarrow> (string \<times> nat option) list \<Rightarrow> etree list" where
  "xpath tree sts =
     (case sts of
        [] \<Rightarrow> []
      | st # sts' \<Rightarrow>
         (if tag tree = fst st \<and> (snd st = None \<or> snd st = Some 1)
          then xpath_steps sts' [tree] else []))"

text \<open>\<^verbatim>\<open>resolve\<close> returns the pair \<^verbatim>\<open>ra,dec\<close> or the empty list.\<close>

datatype resolve_result =
    Coordinates real real
  | Empty

text \<open>\<^verbatim>\<open>float(e.text)\<close>: the text of an element without text is \<open>None\<close>.\<close>

definition float_text :: "'tab env \<Rightarrow> etree \<Rightarrow> error + real" where
  "float_text env e = (case elem_text e of None \<Rightarrow> Inl TypeError | Some s \<Rightarrow> float env s)"

definition resolve ::
  "'tab env \<Rightarrow> string \<Rightarrow> event list \<Rightarrow> (error + resolve_result) \<times> event list" where
  "resolve env objectName tr =
     (let rq = HTTPConnection_request ''cdsweb.u-strasbg.fr'' 80 ''GET''
                 (''/cgi-bin/nph-sesame/-ox?'' @ objectName) None [];
          tr1 = tr @ [Sent rq]
      in case server env tr rq of
           Inl e \<Rightarrow> (Inl e, tr1)
         | Inr r \<Rightarrow>
            (case (case fromstring env (resp_body r) of
                     Inl e \<Rightarrow> fromstring env (resp_body r)
                   | Inr t \<Rightarrow> Inr t) of
               Inl e \<Rightarrow> (Inl e, tr1)
             | Inr tree \<Rightarrow>
                (let pathRa = xpath tree [(''Sesame'', None), (''Target'', None),
                                          (''Resolver'', Some 1), (''jradeg'', None)];
                     pathDec = xpath tree [(''Sesame'', None), (''Target'', None),
                                           (''Resolver'', Some 1), (''jdedeg'', None)]
                 in if length pathRa = 0 then (Inr Empty, tr1)
                    else
                     (case getitem pathRa 0 of
                        Inl e \<Rightarrow> (Inl e, tr1)
                      | Inr a \<Rightarrow>
                         (case float_text env a of
                            Inl e \<Rightarrow> (Inl e, tr1)
                          | Inr ra \<Rightarrow>
                             (case getitem pathDec 0 of
                                Inl e \<Rightarrow> (Inl e, tr1)
                              | Inr d \<Rightarrow>
                                 (case float_text env d of
                                    Inl e \<Rightarrow> (Inl e, tr1)
                                  | Inr dec \<Rightarrow> (Inr (Coordinates ra dec), tr1))))))))"

text \<open>
  Names for the request of \<^verbatim>\<open>resolve\<close> and for its two XPath expressions, and the path to
  the resolver entries themselves.
\<close>

definition resolve_request :: "string \<Rightarrow> http_request" where
  "resolve_request objectName =
     HTTPConnection_request ''cdsweb.u-strasbg.fr'' 80 ''GET''
       (''/cgi-bin/nph-sesame/-ox?'' @ objectName) None []"

definition path_jradeg :: "(string \<times> nat option) list" where
  "path_jradeg = [(''Sesame'', None), (''Target'', None), (''Resolver'', Some 1), (''jradeg'', None)]"

definition path_jdedeg :: "(string \<times> nat option) list" where
  "path_jdedeg = [(''Sesame'', None), (''Target'', None), (''Resolver'', Some 1), (''jdedeg'', None)]"

definition path_Resolver :: "(string \<times> nat option) list" where
  "path_Resolver = [(''Sesame'', None), (''Target'', None), (''Resolver'', None)]"

subsection \<open>\<^verbatim>\<open>timeit\<close>\<close>

text \<open>
  The wrapped function is a function of its arguments that returns or raises. The
  attributes \<open>start\<close> and \<open>stop\<close> exist once \<^verbatim>\<open>__enter__\<close> and \<^verbatim>\<open>__exit__\<close> have set them.
\<close>

record ('a, 'b) timeit =
  func :: "('a \<Rightarrow> error + 'b) option"
  timeit_text :: string
  start :: "real option"
  stop :: "real option"

definition timeit_init :: "('a \<Rightarrow> error + 'b) option \<Rightarrow> ('a, 'b) timeit" where
  "timeit_init f = \<lparr>func = f, timeit_text = [], start = None, stop = None\<rparr>"

definition timeit_str :: "('a, 'b) timeit \<Rightarrow> string" where
  "timeit_str self = ''*Execution time*: '' @ timeit_text self"

text \<open>The classmethod \<^verbatim>\<open>timeit._pretty_print_time\<close>.\<close>

definition timeit_pretty_print_time :: "real \<Rightarrow> error + string" where
  "timeit_pretty_print_time t =
     (let units = [''s'', ''ms'', ''us'', ''ns''];
          scaling = [1, 10 ^ 3, 10 ^ 6, 10 ^ 9];
          order = (if 0 < t \<and> t < 1000 then min (- (\<lfloor>log 10 t\<rfloor> div 3)) 3
                   else if 1000 \<le> t then 0
                   else 3)
      in case getitem scaling order of
           Inl e \<Rightarrow> Inl e
         | Inr s \<Rightarrow>
            (case getitem units order of
               Inl e \<Rightarrow> Inl e
             | Inr u \<Rightarrow> Inr (format_g 3 (t * s) @ '' '' @ u)))"

text \<open>\<^verbatim>\<open>__enter__\<close>; \<open>now\<close> is what \<^verbatim>\<open>time.time()\<close> returns.\<close>

definition timeit_enter :: "('a, 'b) timeit \<Rightarrow> real \<Rightarrow> ('a, 'b) timeit" where
  "timeit_enter self now = self\<lparr>start := Some now\<rparr>"

text \<open>
  \<^verbatim>\<open>__exit__\<close>. The module's global \<^verbatim>\<open>display\<close> is IPython's function, or \<open>None\<close> when
  IPython could not be imported; calling \<open>None\<close> raises. A \<open>display\<close> that is present turns
  the text of the object into an event.
\<close>

definition timeit_exit ::
  "(string \<Rightarrow> event) option \<Rightarrow> ('a, 'b) timeit \<Rightarrow> real \<Rightarrow> event list
    \<Rightarrow> (error + unit) \<times> ('a, 'b) timeit \<times> event list" where
  "timeit_exit display self now tr =
     (let self1 = self\<lparr>stop := Some now\<rparr>
      in case start self1 of
           None \<Rightarrow> (Inl AttributeError, self1, tr)
         | Some t0 \<Rightarrow>
            (case timeit_pretty_print_time (now - t0) of
               Inl e \<Rightarrow> (Inl e, self1, tr)
             | Inr s \<Rightarrow>
                (let self2 = self1\<lparr>timeit_text := s\<rparr>
                 in case display of
                      None \<Rightarrow> (Inl TypeError, self2, tr)
                    | Some d \<Rightarrow> (Inr (), self2, tr @ [d (timeit_str self2)]))))"

text \<open>
  \<^verbatim>\<open>__call__\<close>. The \<^verbatim>\<open>with\<close> statement enters a fresh \<^verbatim>\<open>timeit()\<close>, runs the call, and
  leaves through \<^verbatim>\<open>__exit__\<close> whether the call returned or raised; \<^verbatim>\<open>__exit__\<close> returns
  \<open>None\<close>, so an exception of the call goes on, and an exception of \<^verbatim>\<open>__exit__\<close> itself
  replaces whatever the call did. \<open>t0\<close> and \<open>t1\<close> are the two readings of the clock.
\<close>

definition timeit_call ::
  "(string \<Rightarrow> event) option \<Rightarrow> ('a, 'b) timeit \<Rightarrow> 'a \<Rightarrow> real \<Rightarrow> real \<Rightarrow> event list
    \<Rightarrow> (error + 'b option) \<times> event list" where
  "timeit_call display self args t0 t1 tr =
     (case func self of
        None \<Rightarrow> (Inr None, tr)
      | Some f \<Rightarrow>
         (let cm = timeit_enter (timeit_init None :: ('a, 'b) timeit) t0;
              result = f args
          in case timeit_exit display cm t1 tr of
               (Inl e, cm1, tr1) \<Rightarrow> (Inl e, tr1)
             | (Inr u, cm1, tr1) \<Rightarrow>
                (case result of
                   Inl e \<Rightarrow> (Inl e, tr1)
                 | Inr v \<Rightarrow> (Inr (Some v), tr1))))"

subsection \<open>A stub of the outside world, for concrete runs\<close>

text \<open>
  A server that answers every request with status 200, the same \<open>location\<close> header, and
  a body that depends on how many events came before; an XML parser that reads the body as
  the text of the phase element of a job document; a table parser that takes the body as
  the table unless it is \<^verbatim>\<open>ERROR\<close>.
\<close>

definition stub_env :: "(nat \<Rightarrow> string) \<Rightarrow> string env" where
  "stub_env bodies =
     \<lparr>server = (\<lambda>tr rq. Inr \<lparr>resp_status = 200, resp_reason = ''OK'',
                               getheader = (\<lambda>h. if h = ''location''
                                                then Some ''http://example.org/tap/async/42''
                                                else None),
                               resp_body = bodies (length tr)\<rparr>),
      urlencode = (\<lambda>form. concat (map (\<lambda>kv. fst kv @ ''='' @ snd kv @ ''&'') form)),
      parseString = (\<lambda>b. Inr (Element ''uws:job'' [Element ''uws:jobId'' [Text ''42''],
                                                   Element ''uws:phase'' [Text b]])),
      toxml = (\<lambda>d. case d of Text t \<Rightarrow> t | Element n cs \<Rightarrow> ''<'' @ n @ ''/>''),
      Table_read = (\<lambda>b. if b = ''ERROR'' then Inl ParseError else Inr b),
      fromstring = (\<lambda>b. Inl ParseError),
      float = (\<lambda>s. if s = ''10.68'' then Inr (1068 / 100)
                   else if s = ''41.27'' then Inr (4127 / 100)
                   else Inl ValueError)\<rparr>"

text \<open>A job that was given the identifier 42.\<close>

definition stub_job :: TAP_AsyncQuery where
  "stub_job =
     \<lparr>adql = ''SELECT 1'', TAP_AsyncQuery.host = ''example.org'', TAP_AsyncQuery.port = 80,
      TAP_AsyncQuery.path = ''/tap/async'',
      location = Some ''http://example.org/tap/async/42'', jobid = Some ''42'',
      TAP_AsyncQuery.response = None, data = None\<rparr>"

text \<open>
  Three answers of the name resolver, parsed: one resolver entry with coordinates, one
  resolver entry that found nothing, and no resolver entry.
\<close>

definition sesame_found :: etree where
  "sesame_found =
     ETree ''Sesame'' None
       [ETree ''Target'' None
          [ETree ''name'' (Some ''M31'') [],
           ETree ''Resolver'' None
             [ETree ''oname'' (Some ''M  31'') [],
              ETree ''jradeg'' (Some ''10.68'') [],
              ETree ''jdedeg'' (Some ''41.27'') []]]]"

definition sesame_nothing_found :: etree where
  "sesame_nothing_found =
     ETree ''Sesame'' None
       [ETree ''Target'' None
          [ETree ''name'' (Some ''xyzzy'') [],
           ETree ''Resolver'' None
             [ETree ''INFO'' (Some ''*** Nothing found ***'') []]]]"

definition sesame_no_resolver :: etree where
  "sesame_no_resolver =
     ETree ''Sesame'' None
       [ETree ''Target'' None
          [ETree ''name'' (Some ''xyzzy'') []]]"

section \<open>Properties\<close>

subsection \<open>The endpoint URL\<close>

text \<open>
  Claim C8. For every TAP service the endpoint URL is the string \<open>http://\<close> followed by the
  host and the path, whatever the port is; the two presets built without arguments have the
  endpoints \<^verbatim>\<open>http://tapvizier.u-strasbg.fr/TAPVizieR/tap\<close> and
  \<^verbatim>\<open>http://gea.esac.esa.int/tap-server/tap\<close>.
\<close>

theorem tap_endpoint_url:
  "tap_endpoint s = ''http://'' @ TAP_Service.host s @ TAP_Service.path s
   \<and> tap_endpoint (s\<lparr>TAP_Service.port := n\<rparr>) = tap_endpoint s
   \<and> tap_endpoint TAPVizieR = ''http://tapvizier.u-strasbg.fr/TAPVizieR/tap''
   \<and> tap_endpoint GaiaArchive = ''http://gea.esac.esa.int/tap-server/tap''"
  by (simp add: tap_endpoint_def TAPVizieR_def GaiaArchive_def TAP_Service_init_def)

subsection \<open>The time formatter\<close>

text \<open>Evaluating \<open>\<lfloor>log 10 x\<rfloor>\<close> between two powers of ten.\<close>

lemma pow10_powr: "pow10 k = 10 powr (of_int k)"
proof (cases "0 \<le> k")
  case True
  then have "10 powr (of_int k) = (10::real) powr (real (nat k))" by simp
  also have "\<dots> = 10 ^ nat k" by (simp add: powr_realpow)
  finally show ?thesis using True by (simp add: pow10_def)
next
  case False
  then have "10 powr (of_int k) = (10::real) powr (- real (nat (- k)))" by simp
  also have "\<dots> = 1 / 10 ^ nat (- k)" by (simp add: powr_minus powr_realpow divide_inverse)
  finally show ?thesis using False by (simp add: pow10_def)
qed

lemma floor_log10_eq:
  assumes "pow10 k \<le> x" and "x < pow10 (k + 1)"
  shows "\<lfloor>log 10 x\<rfloor> = k"
proof -
  have pos: "0 < x"
    using assms(1) by (simp add: pow10_powr) (smt (verit) powr_gt_zero)
  have "of_int k \<le> log 10 x"
    using assms(1) pos by (simp add: pow10_powr le_log_iff)
  moreover have "log 10 x < of_int (k + 1)"
    using assms(2) pos by (simp add: pow10_powr log_less_iff)
  ultimately show ?thesis by linarith
qed

lemma order_formula: "- (\<lfloor>x\<rfloor> div 3) = - \<lfloor>x / 3\<rfloor>" for x :: real
  using floor_divide_real_eq_div [of 3 x] by simp

lemma order_bounds:
  assumes "0 < t" and "t < 1000"
  shows "0 \<le> min (- (\<lfloor>log 10 t\<rfloor> div 3)) 3" and "min (- (\<lfloor>log 10 t\<rfloor> div 3)) 3 \<le> 3"
proof -
  have "log 10 t < 3"
    using assms by (simp add: log_less_iff)
  then have "\<lfloor>log 10 t\<rfloor> \<le> 2" by linarith
  then have "\<lfloor>log 10 t\<rfloor> div 3 \<le> 2 div 3" by (rule zdiv_mono1) simp
  then have "\<lfloor>log 10 t\<rfloor> div 3 \<le> 0" by simp
  then show "0 \<le> min (- (\<lfloor>log 10 t\<rfloor> div 3)) 3" by simp
  show "min (- (\<lfloor>log 10 t\<rfloor> div 3)) 3 \<le> 3" by simp
qed

lemma getitem_in_range:
  "0 \<le> i \<Longrightarrow> i < int (length xs) \<Longrightarrow> getitem xs i = Inr (xs ! nat i)"
  by (simp add: getitem_def)

lemma pretty_print_time_order:
  assumes "0 \<le> order" and "order \<le> 3"
    and "order = (if 0 < t \<and> t < 1000 then min (- (\<lfloor>log 10 t\<rfloor> div 3)) 3
                   else if 1000 \<le> t then 0 else 3)"
  shows "pretty_print_time t =
           Inr (format_g 3 (t * [1, 10 ^ 3, 10 ^ 6, 10 ^ 9] ! nat order) @ '' ''
                @ [''s'', ''ms'', ''us'', ''ns''] ! nat order)"
proof -
  have "getitem [1, 10 ^ 3, 10 ^ 6, 10 ^ 9 :: real] order = Inr ([1, 10 ^ 3, 10 ^ 6, 10 ^ 9] ! nat order)"
    using assms(1,2) by (intro getitem_in_range) simp_all
  moreover have "getitem [''s'', ''ms'', ''us'', ''ns''] order = Inr ([''s'', ''ms'', ''us'', ''ns''] ! nat order)"
    using assms(1,2) by (intro getitem_in_range) simp_all
  ultimately show ?thesis
    unfolding pretty_print_time_def Let_def assms(3)[symmetric] by simp
qed

lemma format_g_500: "format_g 3 500 = ''500''"
proof -
  have "\<lfloor>log 10 (500::real)\<rfloor> = 2" by (rule floor_log10_eq) (simp_all add: pow10_def)
  then show ?thesis
    by (simp add: format_g_def Let_def pow10_def round_half_even_def str_nat.simps strip_zeros_def)
qed

lemma format_g_1: "format_g 3 1 = ''1''"
proof -
  have "\<lfloor>log 10 (1::real)\<rfloor> = 0" by simp
  then show ?thesis
    by (simp add: format_g_def Let_def pow10_def round_half_even_def str_nat.simps strip_zeros_def)
qed

lemma format_g_1500: "format_g 3 1500 = ''1.5e+03''"
proof -
  have "\<lfloor>log 10 (1500::real)\<rfloor> = 3" by (rule floor_log10_eq) (simp_all add: pow10_def)
  then show ?thesis
    by (simp add: format_g_def Let_def pow10_def round_half_even_def str_nat.simps strip_zeros_def)
qed

lemma ex_half: "pretty_print_time (1 / 2) = Inr ''500 ms''"
proof -
  have "\<lfloor>log 10 (1 / 2 :: real)\<rfloor> = - 1" by (rule floor_log10_eq) (simp_all add: pow10_def)
  then show ?thesis
    using pretty_print_time_order [of 1 "1 / 2"] by (simp add: format_g_500)
qed

lemma ex_one: "pretty_print_time 1 = Inr ''1 s''"
proof -
  have "pretty_print_time 1 =
          Inr (format_g 3 (1 * [1, 10 ^ 3, 10 ^ 6, 10 ^ 9] ! nat 0) @ '' ''
               @ [''s'', ''ms'', ''us'', ''ns''] ! nat 0)"
    by (rule pretty_print_time_order) simp_all
  then show ?thesis by (simp add: format_g_1)
qed

lemma ex_1500: "pretty_print_time 1500 = Inr ''1.5e+03 s''"
proof -
  have "pretty_print_time 1500 =
          Inr (format_g 3 (1500 * [1, 10 ^ 3, 10 ^ 6, 10 ^ 9] ! nat 0) @ '' ''
               @ [''s'', ''ms'', ''us'', ''ns''] ! nat 0)"
    by (rule pretty_print_time_order) simp_all
  then show ?thesis by (simp add: format_g_1500)
qed

lemma ex_micro: "pretty_print_time (1 / 1000000) = Inr ''1 us''"
proof -
  have fl: "\<lfloor>log 10 (1 / 1000000 :: real)\<rfloor> = - 6"
    by (rule floor_log10_eq) (simp_all add: pow10_def)
  have "pretty_print_time (1 / 1000000) =
          Inr (format_g 3 (1 / 1000000 * [1, 10 ^ 3, 10 ^ 6, 10 ^ 9] ! nat 2) @ '' ''
               @ [''s'', ''ms'', ''us'', ''ns''] ! nat 2)"
    by (rule pretty_print_time_order) (simp_all add: fl)
  moreover have "(1 / 1000000 * [1, 10 ^ 3, 10 ^ 6, 10 ^ 9] ! nat 2) = (1::real)"
    by (simp add: numeral_2_eq_2)
  moreover have "[''s'', ''ms'', ''us'', ''ns''] ! nat 2 = ''us''"
    by (simp add: numeral_2_eq_2)
  ultimately show ?thesis by (simp only: format_g_1) simp
qed


lemma pretty_print_time_cases:
  "\<exists>order. 0 \<le> order \<and> order \<le> 3
     \<and> pretty_print_time t =
         Inr (format_g 3 (t * [1, 10 ^ 3, 10 ^ 6, 10 ^ 9] ! nat order) @ '' ''
              @ [''s'', ''ms'', ''us'', ''ns''] ! nat order)
     \<and> (0 < t \<and> t < 1000 \<longrightarrow> order = min 3 (- \<lfloor>log 10 t / 3\<rfloor>))
     \<and> (1000 \<le> t \<longrightarrow> order = 0)
     \<and> (t \<le> 0 \<longrightarrow> order = 3)"
proof -
  define order where
    "order = (if 0 < t \<and> t < 1000 then min (- (\<lfloor>log 10 t\<rfloor> div 3)) 3
              else if 1000 \<le> t then 0 else (3::int))"
  have lo: "0 \<le> order" and hi: "order \<le> 3"
    using order_bounds [of t] by (auto simp: order_def)
  have "pretty_print_time t =
          Inr (format_g 3 (t * [1, 10 ^ 3, 10 ^ 6, 10 ^ 9] ! nat order) @ '' ''
               @ [''s'', ''ms'', ''us'', ''ns''] ! nat order)"
    using lo hi order_def by (rule pretty_print_time_order)
  moreover have "0 < t \<and> t < 1000 \<longrightarrow> order = min 3 (- \<lfloor>log 10 t / 3\<rfloor>)"
    using order_formula [of "log 10 t"] by (simp add: order_def min.commute)
  moreover have "1000 \<le> t \<longrightarrow> order = 0" by (simp add: order_def)
  moreover have "t \<le> 0 \<longrightarrow> order = 3" by (simp add: order_def)
  ultimately show ?thesis using lo hi by blast
qed


text \<open>
  Claim C2, as the code has it. For every duration \<open>t\<close> the formatter returns, without
  raising, the \<^verbatim>\<open>%.3g\<close> rendering of \<open>t\<close> scaled by \<open>1\<close>, \<open>10\<^sup>3\<close>, \<open>10\<^sup>6\<close> or
  \<open>10\<^sup>9\<close>, a space, and the matching unit among \<open>s\<close>, \<open>ms\<close>, \<open>us\<close>, \<open>ns\<close>: the
  microsecond unit is spelled with the two ASCII letters \<open>us\<close>. The index of the unit is
  \<open>min 3 (- \<lfloor>log\<^sub>1\<^sub>0 t / 3\<rfloor>)\<close> when \<open>0 < t < 1000\<close>, \<open>0\<close> (seconds) when
  \<open>t \<ge> 1000\<close> and \<open>3\<close> (nanoseconds) when \<open>t \<le> 0\<close>. In particular \<open>0.5\<close> gives
  \<^verbatim>\<open>500 ms\<close>, \<open>1\<close> gives \<^verbatim>\<open>1 s\<close>, \<open>0.000001\<close> gives \<^verbatim>\<open>1 us\<close> and \<open>1500\<close>
  gives \<^verbatim>\<open>1.5e+03 s\<close>.
\<close>

theorem pretty_print_time_value:
  "(\<exists>order. 0 \<le> order \<and> order \<le> 3
     \<and> pretty_print_time t =
         Inr (format_g 3 (t * [1, 10 ^ 3, 10 ^ 6, 10 ^ 9] ! nat order) @ '' ''
              @ [''s'', ''ms'', ''us'', ''ns''] ! nat order)
     \<and> (0 < t \<and> t < 1000 \<longrightarrow> order = min 3 (- \<lfloor>log 10 t / 3\<rfloor>))
     \<and> (1000 \<le> t \<longrightarrow> order = 0)
     \<and> (t \<le> 0 \<longrightarrow> order = 3))
   \<and> pretty_print_time (1 / 2) = Inr ''500 ms''
   \<and> pretty_print_time 1 = Inr ''1 s''
   \<and> pretty_print_time (1 / 1000000) = Inr ''1 us''
   \<and> pretty_print_time 1500 = Inr ''1.5e+03 s''"
  using pretty_print_time_cases [of t] ex_half ex_one ex_micro ex_1500 by blast


text \<open>The theorem at \<open>t = 1/2\<close>: the duration is in the first range, and the index is 1.\<close>

theorem pretty_print_time_value_witness:
  "0 < (1 / 2 :: real) \<and> (1 / 2 :: real) < 1000
   \<and> min 3 (- \<lfloor>log 10 (1 / 2 :: real) / 3\<rfloor>) = 1
   \<and> pretty_print_time (1 / 2) = Inr (format_g 3 (1 / 2 * 10 ^ 3) @ '' ms'')"
proof -
  have fl: "\<lfloor>log 10 (1 / 2 :: real)\<rfloor> = - 1"
    by (rule floor_log10_eq) (simp_all add: pow10_def)
  have m: "min 3 (- \<lfloor>log 10 (1 / 2 :: real) / 3\<rfloor>) = 1"
    using order_formula [of "log 10 (1 / 2)"] by (simp only: fl)
  from pretty_print_time_value [of "1 / 2"] obtain order where
    eq: "pretty_print_time (1 / 2) =
          Inr (format_g 3 (1 / 2 * [1, 10 ^ 3, 10 ^ 6, 10 ^ 9] ! nat order) @ '' ''
               @ [''s'', ''ms'', ''us'', ''ns''] ! nat order)"
    and ord: "0 < (1 / 2 :: real) \<and> (1 / 2 :: real) < 1000 \<longrightarrow> order = min 3 (- \<lfloor>log 10 (1 / 2) / 3\<rfloor>)"
    by blast
  have "order = 1" using ord m by simp
  then have "pretty_print_time (1 / 2) = Inr (format_g 3 (1 / 2 * 10 ^ 3) @ '' ms'')"
    using eq by simp
  then show ?thesis using m by simp
qed


text \<open>
  Claim C2 as the specification words it has the unit \<open>\<mu>s\<close> and the result
  \<^verbatim>\<open>1\<close> \<open>\<mu>s\<close> at \<open>t = 0.000001\<close>. The code returns \<^verbatim>\<open>1 us\<close> there, which is another
  string (\<open>CHR 0xB5\<close> is the micro sign).
\<close>

theorem pretty_print_time_micro_counterexample:
  "pretty_print_time (1 / 1000000) = Inr ''1 us''
   \<and> pretty_print_time (1 / 1000000) \<noteq> Inr (''1 '' @ [CHR 0xB5] @ ''s'')"
  unfolding ex_micro by simp

text \<open>
  Claim C9. The module-level formatter and the classmethod of \<^verbatim>\<open>timeit\<close> return the same
  result on every duration.
\<close>

theorem pretty_print_time_agree: "timeit_pretty_print_time t = pretty_print_time t"
  by (simp add: timeit_pretty_print_time_def pretty_print_time_def)

subsection \<open>The waiting loop of \<^verbatim>\<open>get\<close>\<close>


lemma finished_status:
  "finished env q tr =
     (case status env q tr of
        (Inl e, s) \<Rightarrow> (Inl e, s)
      | (Inr phase, s) \<Rightarrow> (Inr (phase = ''COMPLETED''), s))"
  by (simp add: finished_def split: prod.splits sum.splits)

lemma get_while_True_unfold:
  "get_while env sleep True q tr =
     (case status env q tr of
        (Inl e, q1, tr1) \<Rightarrow> Some (Inl e, q1, tr1)
      | (Inr phase, q1, tr1) \<Rightarrow>
         if phase = ''COMPLETED'' then Some (Inr (), q1, tr1)
         else if sleep < 0 then Some (Inl ValueError, q1, tr1)
         else get_while env sleep True q1 (tr1 @ [Slept sleep]))"
  by (subst get_while.simps) (simp add: finished_def split: prod.splits sum.splits)

lemma get_while_False:
  "get_while env sleep False q tr =
     (case finished env q tr of
        (Inl e, s) \<Rightarrow> Some (Inl e, s)
      | (Inr fin, s) \<Rightarrow> Some (Inr (), s))"
  by (subst get_while.simps) (simp split: prod.splits sum.splits)

lemma get_while_exit_poll:
  assumes "get_while env sleep wait q tr = Some x" and "wait" and "fst x = Inr ()"
  shows "\<exists>n. poll env sleep q tr n = Some (Inr ''COMPLETED'')"
  using assms
proof (induction rule: get_while.raw_induct [rotated 1, consumes 1])
  case (1 get_while' env sleep wait q tr x)
  obtain r q1 tr1 where st: "status env q tr = (r, q1, tr1)" by (cases "status env q tr")
  show ?case
  proof (cases r)
    case (Inl e)
    with 1(2,4) st show ?thesis by (auto simp: finished_def)
  next
    case (Inr phase)
    show ?thesis
    proof (cases "phase = ''COMPLETED''")
      case True
      with st Inr have "poll env sleep q tr 0 = Some (Inr ''COMPLETED'')" by simp
      then show ?thesis by blast
    next
      case False
      with 1(2,3,4) st Inr have neg: "\<not> sleep < 0"
        and rec: "get_while' env sleep wait q1 (tr1 @ [Slept sleep]) = Some x"
        by (auto simp: finished_def split: if_splits)
      from 1(1) [OF rec 1(3) 1(4)] obtain n
        where "poll env sleep q1 (tr1 @ [Slept sleep]) n = Some (Inr ''COMPLETED'')" by blast
      with st Inr False neg have "poll env sleep q tr (Suc n) = Some (Inr ''COMPLETED'')" by simp
      then show ?thesis by blast
    qed
  qed
qed

lemma poll_exit_get_while:
  "poll env sleep q tr n = Some (Inr ''COMPLETED'')
    \<Longrightarrow> \<exists>s. get_while env sleep True q tr = Some (Inr (), s)"
proof (induction n arbitrary: q tr)
  case 0
  then show ?case
    by (subst get_while_True_unfold) (auto split: prod.splits sum.splits)
next
  case (Suc n)
  obtain r q1 tr1 where st: "status env q tr = (r, q1, tr1)" by (cases "status env q tr")
  from Suc.prems st obtain phase where r: "r = Inr phase" and ph: "phase \<noteq> ''COMPLETED''"
    and sl: "\<not> sleep < 0"
    and nxt: "poll env sleep q1 (tr1 @ [Slept sleep]) n = Some (Inr ''COMPLETED'')"
    by (cases r) (auto split: if_splits)
  from Suc.IH [OF nxt] show ?case
    by (subst get_while_True_unfold) (simp add: st r ph sl)
qed

lemma get_while_Some_poll:
  assumes "get_while env sleep wait q tr = Some x" and "wait"
  shows "\<exists>n. \<not> (\<exists>phase. poll env sleep q tr n = Some (Inr phase) \<and> phase \<noteq> ''COMPLETED'')"
  using assms
proof (induction rule: get_while.raw_induct [rotated 1, consumes 1])
  case (1 get_while' env sleep wait q tr x)
  obtain r q1 tr1 where st: "status env q tr = (r, q1, tr1)" by (cases "status env q tr")
  show ?case
  proof (cases r)
    case (Inl e)
    with st have "poll env sleep q tr 0 = Some (Inl e)" by simp
    then have "\<not> (\<exists>phase. poll env sleep q tr 0 = Some (Inr phase) \<and> phase \<noteq> ''COMPLETED'')"
      by simp
    then show ?thesis by blast
  next
    case (Inr phase)
    show ?thesis
    proof (cases "phase = ''COMPLETED'' \<or> sleep < 0")
      case True
      with st Inr have "poll env sleep q tr (Suc 0) = None" by simp
      then have "\<not> (\<exists>phase. poll env sleep q tr (Suc 0) = Some (Inr phase) \<and> phase \<noteq> ''COMPLETED'')"
        by simp
      then show ?thesis by blast
    next
      case False
      with 1(2,3) st Inr have rec: "get_while' env sleep wait q1 (tr1 @ [Slept sleep]) = Some x"
        by (auto simp: finished_def split: if_splits)
      from 1(1) [OF rec 1(3)] obtain n where
        n: "\<not> (\<exists>phase. poll env sleep q1 (tr1 @ [Slept sleep]) n = Some (Inr phase) \<and> phase \<noteq> ''COMPLETED'')"
        by blast
      from st Inr False have "poll env sleep q tr (Suc n) = poll env sleep q1 (tr1 @ [Slept sleep]) n"
        by simp
      with n show ?thesis by metis
    qed
  qed
qed

lemma poll_get_while_Some:
  "\<not> (\<exists>phase. poll env sleep q tr n = Some (Inr phase) \<and> phase \<noteq> ''COMPLETED'')
    \<Longrightarrow> get_while env sleep True q tr \<noteq> None"
proof (induction n arbitrary: q tr)
  case 0
  then show ?case
    by (subst get_while_True_unfold) (auto split: prod.splits sum.splits)
next
  case (Suc n)
  obtain r q1 tr1 where st: "status env q tr = (r, q1, tr1)" by (cases "status env q tr")
  show ?case
  proof (cases "\<exists>phase. r = Inr phase \<and> phase \<noteq> ''COMPLETED'' \<and> \<not> sleep < 0")
    case True
    then obtain phase where r: "r = Inr phase" and ph: "phase \<noteq> ''COMPLETED''"
      and sl: "\<not> sleep < 0" by blast
    from st r ph sl have "poll env sleep q tr (Suc n) = poll env sleep q1 (tr1 @ [Slept sleep]) n"
      by simp
    with Suc.prems have
      "\<not> (\<exists>phase. poll env sleep q1 (tr1 @ [Slept sleep]) n = Some (Inr phase) \<and> phase \<noteq> ''COMPLETED'')"
      by simp
    from Suc.IH [OF this] show ?thesis
      by (subst get_while_True_unfold) (simp add: st r ph sl)
  next
    case False
    then show ?thesis
      by (subst get_while_True_unfold) (cases r; auto simp: st)
  qed
qed

text \<open>The stub: a job with an identifier always gets a phase, the body of the response.\<close>

lemma status_stub:
  "jobid q = Some j \<Longrightarrow>
   status (stub_env bodies) q tr =
     (Inr (bodies (length tr)),
      q\<lparr>TAP_AsyncQuery.response :=
           Some \<lparr>resp_status = 200, resp_reason = ''OK'',
                 getheader = (\<lambda>h. if h = ''location''
                                  then Some ''http://example.org/tap/async/42'' else None),
                 resp_body = bodies (length tr)\<rparr>\<rparr>,
      tr @ [Sent (status_request q j)])"
  by (simp add: status_def stub_env_def status_request_def getElementsByTagName_def getitem_def)

lemma poll_stub_error:
  "jobid q = Some j \<Longrightarrow> 0 \<le> sleep \<Longrightarrow>
   poll (stub_env (\<lambda>k. ''ERROR'')) sleep q tr n = Some (Inr ''ERROR'')"
proof (induction n arbitrary: q tr)
  case 0
  then show ?case by (simp add: status_stub)
next
  case (Suc n)
  then show ?case by (simp add: status_stub)
qed

lemma get_None_iff:
  "get env sleep wait q tr = None \<longleftrightarrow> get_while env sleep wait q tr = None"
proof (cases "get_while env sleep wait q tr")
  case None
  then show ?thesis by (simp add: get_def)
next
  case (Some x)
  obtain r q1 tr1 where "x = (r, q1, tr1)" by (cases x)
  with Some show ?thesis by (cases r) (simp_all add: get_def)
qed

text \<open>
  Claim C1. \<^verbatim>\<open>finished\<close> is \<^verbatim>\<open>status\<close> compared with \<^verbatim>\<open>COMPLETED\<close>: it raises what
  \<^verbatim>\<open>status\<close> raises, and is true exactly when the phase text is \<^verbatim>\<open>COMPLETED\<close>. The loop
  of \<^verbatim>\<open>get(sleep, wait=True)\<close> polls, sleeps \<open>sleep\<close> seconds and polls again. It ends
  and goes on to the rest of \<^verbatim>\<open>get\<close> exactly when one of its polls returns
  \<^verbatim>\<open>COMPLETED\<close>; it never ends exactly when every poll returns a phase other than
  \<^verbatim>\<open>COMPLETED\<close> (a job that stays in \<^verbatim>\<open>ERROR\<close> or \<^verbatim>\<open>ABORTED\<close> is polled forever), and
  then \<^verbatim>\<open>get\<close> itself never returns. (The remaining case is a poll or a sleep that raises:
  the exception leaves the loop.)
\<close>

theorem get_while_polls:
  "finished env q tr =
     (case status env q tr of
        (Inl e, s) \<Rightarrow> (Inl e, s)
      | (Inr phase, s) \<Rightarrow> (Inr (phase = ''COMPLETED''), s))
   \<and> ((\<exists>s. get_while env sleep True q tr = Some (Inr (), s))
        \<longleftrightarrow> (\<exists>n. poll env sleep q tr n = Some (Inr ''COMPLETED'')))
   \<and> (get_while env sleep True q tr = None
        \<longleftrightarrow> (\<forall>n. \<exists>phase. poll env sleep q tr n = Some (Inr phase) \<and> phase \<noteq> ''COMPLETED''))
   \<and> (get env sleep True q tr = None \<longleftrightarrow> get_while env sleep True q tr = None)"
proof (intro conjI)
  show "finished env q tr =
     (case status env q tr of
        (Inl e, s) \<Rightarrow> (Inl e, s)
      | (Inr phase, s) \<Rightarrow> (Inr (phase = ''COMPLETED''), s))"
    by (rule finished_status)
  show "(\<exists>s. get_while env sleep True q tr = Some (Inr (), s))
        \<longleftrightarrow> (\<exists>n. poll env sleep q tr n = Some (Inr ''COMPLETED''))"
  proof
    assume "\<exists>s. get_while env sleep True q tr = Some (Inr (), s)"
    then obtain s where "get_while env sleep True q tr = Some (Inr (), s)" by blast
    then show "\<exists>n. poll env sleep q tr n = Some (Inr ''COMPLETED'')"
      by (rule get_while_exit_poll) simp_all
  next
    assume "\<exists>n. poll env sleep q tr n = Some (Inr ''COMPLETED'')"
    then show "\<exists>s. get_while env sleep True q tr = Some (Inr (), s)"
      using poll_exit_get_while by blast
  qed
  show "get_while env sleep True q tr = None
        \<longleftrightarrow> (\<forall>n. \<exists>phase. poll env sleep q tr n = Some (Inr phase) \<and> phase \<noteq> ''COMPLETED'')"
  proof
    assume none: "get_while env sleep True q tr = None"
    show "\<forall>n. \<exists>phase. poll env sleep q tr n = Some (Inr phase) \<and> phase \<noteq> ''COMPLETED''"
    proof (rule ccontr)
      assume "\<not> (\<forall>n. \<exists>phase. poll env sleep q tr n = Some (Inr phase) \<and> phase \<noteq> ''COMPLETED'')"
      then obtain n where
        "\<not> (\<exists>phase. poll env sleep q tr n = Some (Inr phase) \<and> phase \<noteq> ''COMPLETED'')"
        by blast
      then have "get_while env sleep True q tr \<noteq> None" by (rule poll_get_while_Some)
      with none show False by simp
    qed
  next
    assume all: "\<forall>n. \<exists>phase. poll env sleep q tr n = Some (Inr phase) \<and> phase \<noteq> ''COMPLETED''"
    show "get_while env sleep True q tr = None"
    proof (rule ccontr)
      assume "get_while env sleep True q tr \<noteq> None"
      then obtain x where "get_while env sleep True q tr = Some x" by blast
      then have "\<exists>n. \<not> (\<exists>phase. poll env sleep q tr n = Some (Inr phase) \<and> phase \<noteq> ''COMPLETED'')"
        by (rule get_while_Some_poll) simp
      with all show False by blast
    qed
  qed
  show "get env sleep True q tr = None \<longleftrightarrow> get_while env sleep True q tr = None"
    by (rule get_None_iff)
qed

text \<open>
  Two runs against the stub, with \<open>sleep = 0.2\<close>. A job whose phase is always
  \<^verbatim>\<open>ERROR\<close>: \<^verbatim>\<open>get\<close> does not return. A job that is \<^verbatim>\<open>EXECUTING\<close> for two polls and then
  \<^verbatim>\<open>COMPLETED\<close>: the loop ends after three polls with a sleep between them.
\<close>

theorem get_while_polls_witness:
  "get (stub_env (\<lambda>k. ''ERROR'')) (1 / 5) True stub_job [] = None
   \<and> (\<exists>s. get_while (stub_env (\<lambda>k. if k < 4 then ''EXECUTING'' else ''COMPLETED''))
              (1 / 5) True stub_job [] = Some (Inr (), s))
   \<and> map_option (\<lambda>x. snd (snd x))
        (get_while (stub_env (\<lambda>k. if k < 4 then ''EXECUTING'' else ''COMPLETED''))
           (1 / 5) True stub_job [])
      = Some [Sent (status_request stub_job ''42''), Slept (1 / 5),
              Sent (status_request stub_job ''42''), Slept (1 / 5),
              Sent (status_request stub_job ''42'')]"
proof (intro conjI)
  have j: "jobid stub_job = Some ''42''" by (simp add: stub_job_def)
  have "\<forall>n. \<exists>phase. poll (stub_env (\<lambda>k. ''ERROR'')) (1 / 5) stub_job [] n = Some (Inr phase)
          \<and> phase \<noteq> ''COMPLETED''"
    using poll_stub_error [OF j, of "1 / 5" "[]"] by simp
  then show "get (stub_env (\<lambda>k. ''ERROR'')) (1 / 5) True stub_job [] = None"
    using get_while_polls [of "stub_env (\<lambda>k. ''ERROR'')" stub_job "[]" "1 / 5"] by blast
  let ?env = "stub_env (\<lambda>k. if k < 4 then ''EXECUTING'' else ''COMPLETED'') :: string env"
  have "poll ?env (1 / 5) stub_job [] (Suc (Suc 0)) = Some (Inr ''COMPLETED'')"
    by (simp add: status_stub j)
  then show "\<exists>s. get_while ?env (1 / 5) True stub_job [] = Some (Inr (), s)"
    using get_while_polls [of ?env stub_job "[]" "1 / 5"] by blast
  show "map_option (\<lambda>x. snd (snd x)) (get_while ?env (1 / 5) True stub_job [])
      = Some [Sent (status_request stub_job ''42''), Slept (1 / 5),
              Sent (status_request stub_job ''42''), Slept (1 / 5),
              Sent (status_request stub_job ''42'')]"
    by (simp add: get_while_True_unfold status_stub j status_request_def)
qed

subsection \<open>What the operations of a job change\<close>

lemma status_effect:
  assumes "status env q tr = (r, q1, tr1)"
  shows "q1 = q\<lparr>TAP_AsyncQuery.response := TAP_AsyncQuery.response q1\<rparr>"
    and "jobid q = None \<Longrightarrow> r = Inl TypeError \<and> q1 = q \<and> tr1 = tr"
    and "jobid q = Some j \<Longrightarrow> tr1 = tr @ [Sent (status_request q j)]"
  using assms
  by (auto simp: status_def Let_def status_request_def split: option.splits sum.splits)

lemma finished_effect:
  assumes "finished env q tr = (r, q1, tr1)"
  shows "q1 = q\<lparr>TAP_AsyncQuery.response := TAP_AsyncQuery.response q1\<rparr>"
    and "jobid q = None \<Longrightarrow> r = Inl TypeError \<and> q1 = q \<and> tr1 = tr"
    and "jobid q = Some j \<Longrightarrow> tr1 = tr @ [Sent (status_request q j)]"
proof -
  obtain r' where st: "status env q tr = (r', q1, tr1)"
    and r: "r = (case r' of Inl e \<Rightarrow> Inl e | Inr phase \<Rightarrow> Inr (phase = ''COMPLETED''))"
    using assms by (auto simp: finished_def split: prod.splits sum.splits)
  show "q1 = q\<lparr>TAP_AsyncQuery.response := TAP_AsyncQuery.response q1\<rparr>"
    using status_effect(1) [OF st] .
  show "jobid q = None \<Longrightarrow> r = Inl TypeError \<and> q1 = q \<and> tr1 = tr"
    using status_effect(2) [OF st] r by simp
  show "jobid q = Some j \<Longrightarrow> tr1 = tr @ [Sent (status_request q j)]"
    using status_effect(3) [OF st] .
qed

lemma finished_Inr_jobid:
  assumes "finished env q tr = (Inr b, q1, tr1)"
  shows "\<exists>j. jobid q = Some j"
  using finished_effect(2) [OF assms] by (cases "jobid q") auto

lemma request_response_update [simp]:
  "status_request (q\<lparr>TAP_AsyncQuery.response := x\<rparr>) j = status_request q j"
  "results_request (q\<lparr>TAP_AsyncQuery.response := x\<rparr>) j = results_request q j"
  by (simp_all add: status_request_def results_request_def)

lemma get_while_effect:
  assumes "get_while env sleep wait q tr = Some x"
  shows "fst (snd x) = q\<lparr>TAP_AsyncQuery.response := TAP_AsyncQuery.response (fst (snd x))\<rparr>
         \<and> (\<exists>evs. snd (snd x) = tr @ evs
               \<and> (\<forall>j. jobid q = Some j \<longrightarrow> set evs \<subseteq> {Slept sleep, Sent (status_request q j)})
               \<and> (jobid q = None \<longrightarrow> evs = []))"
  using assms
proof (induction rule: get_while.raw_induct [rotated 1, consumes 1])
  case (1 get_while' env sleep wait q tr x)
  obtain r q1 tr1 where fin: "finished env q tr = (r, q1, tr1)" by (cases "finished env q tr")
  note eff = finished_effect [OF fin]
  show ?case
  proof (cases "\<exists>fin. r = Inr fin \<and> \<not> fin \<and> wait \<and> \<not> sleep < 0")
    case False
    then have x: "snd x = (q1, tr1)"
      using 1(2) fin by (cases r) (auto split: if_splits)
    have "\<exists>evs. tr1 = tr @ evs
               \<and> (\<forall>j. jobid q = Some j \<longrightarrow> set evs \<subseteq> {Slept sleep, Sent (status_request q j)})
               \<and> (jobid q = None \<longrightarrow> evs = [])"
    proof (cases "jobid q")
      case None
      with eff(2) show ?thesis by simp
    next
      case (Some j)
      with eff(3) show ?thesis by simp
    qed
    with x eff(1) show ?thesis by simp
  next
    case True
    then have rec: "get_while' env sleep wait q1 (tr1 @ [Slept sleep]) = Some x"
      using 1(2) fin by auto
    from True eff(2) obtain j where j: "jobid q = Some j" by (cases "jobid q") auto
    have q1: "q1 = q\<lparr>TAP_AsyncQuery.response := TAP_AsyncQuery.response q1\<rparr>" by (rule eff(1))
    then have j1: "jobid q1 = Some j" using j by (metis TAP_AsyncQuery.select_convs(6) TAP_AsyncQuery.surjective TAP_AsyncQuery.update_convs(7))
    have sr: "status_request q1 j = status_request q j"
      by (subst q1) simp
    from 1(1) [OF rec] obtain evs where
      a: "fst (snd x) = q1\<lparr>TAP_AsyncQuery.response := TAP_AsyncQuery.response (fst (snd x))\<rparr>"
      and b: "snd (snd x) = (tr1 @ [Slept sleep]) @ evs"
      and c: "set evs \<subseteq> {Slept sleep, Sent (status_request q1 j)}"
      using j1 by blast
    have "fst (snd x) = q\<lparr>TAP_AsyncQuery.response := TAP_AsyncQuery.response (fst (snd x))\<rparr>"
      by (subst a, subst q1) simp
    moreover have "snd (snd x) = tr @ (Sent (status_request q j) # Slept sleep # evs)"
      using b eff(3) [OF j] by simp
    moreover have "set (Sent (status_request q j) # Slept sleep # evs)
                    \<subseteq> {Slept sleep, Sent (status_request q j)}"
      using c sr by auto
    ultimately show ?thesis using j by auto
  qed
qed

lemma results_not_status: "results_request q j \<noteq> status_request q j"
  by (simp add: results_request_def status_request_def)

text \<open>
  Claim C3. When the check after the loop finds the job not finished, \<^verbatim>\<open>get\<close> returns
  \<open>None\<close> without raising, and everything it did was polling the job resource and
  sleeping: the request for the results resource was not sent. In particular, with
  \<^verbatim>\<open>wait=False\<close> on a job that is not finished at either check, \<^verbatim>\<open>get\<close> returns
  \<open>None\<close> after exactly two polls.
\<close>

theorem get_not_finished:
  "(get_while env sleep wait q tr = Some (Inr (), q1, tr1)
      \<and> finished env q1 tr1 = (Inr False, q2, tr2)
     \<longrightarrow> get env sleep wait q tr = Some (Inr None, q2, tr2)
         \<and> (\<exists>j evs. jobid q = Some j \<and> tr2 = tr @ evs
               \<and> set evs \<subseteq> {Slept sleep, Sent (status_request q j)}
               \<and> Sent (results_request q j) \<notin> set evs))
   \<and> (finished env q tr = (Inr False, q1, tr1)
      \<and> finished env q1 tr1 = (Inr False, q2, tr2)
     \<longrightarrow> get env sleep False q tr = Some (Inr None, q2, tr2)
         \<and> (\<exists>j. jobid q = Some j
               \<and> tr2 = tr @ [Sent (status_request q j), Sent (status_request q j)]))"
proof (intro conjI impI)
  assume a: "get_while env sleep wait q tr = Some (Inr (), q1, tr1)
      \<and> finished env q1 tr1 = (Inr False, q2, tr2)"
  then have loop: "get_while env sleep wait q tr = Some (Inr (), q1, tr1)"
    and fin: "finished env q1 tr1 = (Inr False, q2, tr2)" by simp_all
  show "get env sleep wait q tr = Some (Inr None, q2, tr2)"
    by (simp add: get_def loop get_results_def fin)
  from finished_Inr_jobid [OF fin] obtain j where j1: "jobid q1 = Some j" by blast
  from get_while_effect [OF loop] have
    q1: "q1 = q\<lparr>TAP_AsyncQuery.response := TAP_AsyncQuery.response q1\<rparr>"
    and ex: "\<exists>evs. tr1 = tr @ evs
               \<and> (\<forall>j. jobid q = Some j \<longrightarrow> set evs \<subseteq> {Slept sleep, Sent (status_request q j)})
               \<and> (jobid q = None \<longrightarrow> evs = [])"
    by simp_all
  have "jobid q = jobid (q\<lparr>TAP_AsyncQuery.response := TAP_AsyncQuery.response q1\<rparr>)" by simp
  with q1 j1 have j: "jobid q = Some j" by simp
  from ex j obtain evs where evs: "tr1 = tr @ evs"
    and sub: "set evs \<subseteq> {Slept sleep, Sent (status_request q j)}" by blast
  have sr: "status_request q1 j = status_request q j" by (subst q1) simp
  have tr2: "tr2 = tr @ (evs @ [Sent (status_request q j)])"
    using finished_effect(3) [OF fin j1] evs sr by simp
  have "set (evs @ [Sent (status_request q j)]) \<subseteq> {Slept sleep, Sent (status_request q j)}"
    using sub by simp
  moreover from this have "Sent (results_request q j) \<notin> set (evs @ [Sent (status_request q j)])"
    using results_not_status [of q j] by auto
  ultimately show "\<exists>j evs. jobid q = Some j \<and> tr2 = tr @ evs
               \<and> set evs \<subseteq> {Slept sleep, Sent (status_request q j)}
               \<and> Sent (results_request q j) \<notin> set evs"
    using j tr2 by blast
next
  assume a: "finished env q tr = (Inr False, q1, tr1)
      \<and> finished env q1 tr1 = (Inr False, q2, tr2)"
  then have f1: "finished env q tr = (Inr False, q1, tr1)"
    and f2: "finished env q1 tr1 = (Inr False, q2, tr2)" by simp_all
  show "get env sleep False q tr = Some (Inr None, q2, tr2)"
    by (simp add: get_def get_while_False f1 get_results_def f2)
  from finished_Inr_jobid [OF f1] obtain j where j: "jobid q = Some j" by blast
  have q1: "q1 = q\<lparr>TAP_AsyncQuery.response := TAP_AsyncQuery.response q1\<rparr>"
    by (rule finished_effect(1) [OF f1])
  have "jobid q = jobid (q\<lparr>TAP_AsyncQuery.response := TAP_AsyncQuery.response q1\<rparr>)" by simp
  with q1 j have j1: "jobid q1 = Some j" by simp
  have sr: "status_request q1 j = status_request q j" by (subst q1) simp
  have "tr2 = tr @ [Sent (status_request q j), Sent (status_request q j)]"
    using finished_effect(3) [OF f1 j] finished_effect(3) [OF f2 j1] sr by simp
  with j show "\<exists>j. jobid q = Some j
               \<and> tr2 = tr @ [Sent (status_request q j), Sent (status_request q j)]"
    by blast
qed

lemma finished_stub:
  "jobid q = Some j \<Longrightarrow>
   finished (stub_env bodies) q tr =
     (Inr (bodies (length tr) = ''COMPLETED''),
      q\<lparr>TAP_AsyncQuery.response :=
           Some \<lparr>resp_status = 200, resp_reason = ''OK'',
                 getheader = (\<lambda>h. if h = ''location''
                                  then Some ''http://example.org/tap/async/42'' else None),
                 resp_body = bodies (length tr)\<rparr>\<rparr>,
      tr @ [Sent (status_request q j)])"
  by (simp add: finished_def status_stub)

text \<open>
  Two runs against the stub. With \<^verbatim>\<open>wait=False\<close> on a job that is \<^verbatim>\<open>EXECUTING\<close>:
  nothing is returned after two polls. With \<^verbatim>\<open>wait=True\<close> on a job that is reported
  \<^verbatim>\<open>COMPLETED\<close> to the third poll of the loop and \<^verbatim>\<open>ABORTED\<close> afterwards: the loop ends,
  the check after it fails, and nothing is returned or fetched.
\<close>

theorem get_not_finished_witness:
  "fst (finished (stub_env (\<lambda>k. ''EXECUTING'')) stub_job []) = Inr False
   \<and> map_option (\<lambda>x. (fst x, snd (snd x)))
        (get (stub_env (\<lambda>k. ''EXECUTING'')) (1 / 5) False stub_job [])
      = Some (Inr None, [Sent (status_request stub_job ''42''),
                         Sent (status_request stub_job ''42'')])
   \<and> map_option (\<lambda>x. (fst x, snd (snd x)))
        (get (stub_env (\<lambda>k. if k < 4 then ''EXECUTING''
                              else if k = 4 then ''COMPLETED'' else ''ABORTED''))
           (1 / 5) True stub_job [])
      = Some (Inr None, [Sent (status_request stub_job ''42''), Slept (1 / 5),
                         Sent (status_request stub_job ''42''), Slept (1 / 5),
                         Sent (status_request stub_job ''42''),
                         Sent (status_request stub_job ''42'')])"
proof (intro conjI)
  have j: "jobid stub_job = Some ''42''" by (simp add: stub_job_def)
  let ?env = "stub_env (\<lambda>k. ''EXECUTING'') :: string env"
  let ?r = "\<lparr>resp_status = 200, resp_reason = ''OK'',
             getheader = (\<lambda>h. if h = ''location''
                              then Some ''http://example.org/tap/async/42'' else None),
             resp_body = ''EXECUTING''\<rparr>"
  let ?q1 = "stub_job\<lparr>TAP_AsyncQuery.response := Some ?r\<rparr>"
  let ?s = "Sent (status_request stub_job ''42'')"
  have f1: "finished ?env stub_job [] = (Inr False, ?q1, [] @ [?s])"
    by (simp add: finished_stub [OF j])
  have f2: "finished ?env ?q1 ([] @ [?s]) = (Inr False, ?q1, [?s, ?s])"
    by (simp add: finished_stub j)
  show "fst (finished ?env stub_job []) = Inr False" by (simp add: f1)
  from get_not_finished [of ?env "1 / 5" False stub_job "[]" ?q1 "[] @ [?s]" ?q1 "[?s, ?s]"] f1 f2
  have "get ?env (1 / 5) False stub_job [] = Some (Inr None, ?q1, [?s, ?s])" by blast
  then show "map_option (\<lambda>x. (fst x, snd (snd x))) (get ?env (1 / 5) False stub_job [])
      = Some (Inr None, [?s, ?s])" by simp
  let ?env2 = "stub_env (\<lambda>k. if k < 4 then ''EXECUTING''
                              else if k = 4 then ''COMPLETED'' else ''ABORTED'') :: string env"
  show "map_option (\<lambda>x. (fst x, snd (snd x))) (get ?env2 (1 / 5) True stub_job [])
      = Some (Inr None, [?s, Slept (1 / 5), ?s, Slept (1 / 5), ?s, ?s])"
    by (simp add: get_def get_while_True_unfold status_stub j get_results_def finished_stub)
qed

subsection \<open>The job identifier\<close>

lemma rfind_Nil: "rfind [] c = - 1"
  by (simp add: rfind_def)

lemma rfind_snoc: "rfind (s @ [x]) c = (if x = c then int (length s) else rfind s c)"
proof -
  have "filter (\<lambda>i. (s @ [x]) ! i = c) (rev [0..<length s])
          = filter (\<lambda>i. s ! i = c) (rev [0..<length s])"
    by (rule filter_cong) (simp_all add: nth_append)
  then show ?thesis by (simp add: rfind_def)
qed

lemma rfind_notin: "c \<notin> set s \<Longrightarrow> rfind s c = - 1"
  by (induction s rule: rev_induct) (auto simp: rfind_Nil rfind_snoc)

lemma rfind_last: "c \<notin> set j \<Longrightarrow> rfind (pre @ c # j) c = int (length pre)"
proof (induction j rule: rev_induct)
  case Nil
  show ?case using rfind_snoc [of pre c c] by simp
next
  case (snoc x xs)
  then show ?case using rfind_snoc [of "pre @ c # xs" x c] by auto
qed

lemma slice_after_last:
  "c \<notin> set j \<Longrightarrow> slice_from (pre @ c # j) (rfind (pre @ c # j) c + 1) = j"
  by (simp add: rfind_last slice_from_def nat_add_distrib)

lemma slice_after_none: "c \<notin> set s \<Longrightarrow> slice_from s (rfind s c + 1) = s"
  by (simp add: rfind_notin slice_from_def)

lemma jobid_of_location:
  "(\<exists>pre. loc = pre @ ''/'' @ slice_from loc (rfind loc CHR ''/'' + 1))
      \<and> CHR ''/'' \<notin> set (slice_from loc (rfind loc CHR ''/'' + 1))
   \<or> CHR ''/'' \<notin> set loc \<and> slice_from loc (rfind loc CHR ''/'' + 1) = loc"
proof (cases "CHR ''/'' \<in> set loc")
  case True
  then obtain pre j where loc: "loc = pre @ CHR ''/'' # j" and j: "CHR ''/'' \<notin> set j"
    using split_list_last [of "CHR ''/''" loc] by blast
  have "slice_from loc (rfind loc CHR ''/'' + 1) = j"
    unfolding loc using j by (rule slice_after_last)
  with loc j show ?thesis by auto
next
  case False
  then show ?thesis by (simp add: slice_after_none)
qed

lemma submit_Inl:
  assumes "submit env silent q tr = (Inl e, q1, tr1)"
  shows "jobid q1 = jobid q" and "location q = None \<Longrightarrow> location q1 = None"
  using assms
  by (auto simp: submit_def Let_def split: sum.splits option.splits if_splits)

lemma submit_Inr:
  assumes "submit env silent q tr = (Inr u, q1, tr1)"
  shows "\<exists>resp loc. server env tr (submit_request env q) = Inr resp
           \<and> getheader resp ''location'' = Some loc
           \<and> location q1 = Some loc
           \<and> jobid q1 = Some (slice_from loc (rfind loc CHR ''/'' + 1))
           \<and> q1 = q\<lparr>TAP_AsyncQuery.response := Some resp, location := Some loc,
                    jobid := Some (slice_from loc (rfind loc CHR ''/'' + 1))\<rparr>
           \<and> (\<exists>evs. tr1 = tr @ Sent (submit_request env q) # evs)"
  using assms
  by (auto simp: submit_def Let_def submit_request_def split: sum.splits option.splits if_splits)

lemma get_results_effect:
  assumes "get_results env q tr = (r, q1, tr1)"
  shows "location q1 = location q" and "jobid q1 = jobid q"
    and "jobid q = None \<Longrightarrow> r = Inl TypeError \<and> q1 = q \<and> tr1 = tr"
proof -
  obtain rf qf trf where fin: "finished env q tr = (rf, qf, trf)" by (cases "finished env q tr")
  have qf: "qf = q\<lparr>TAP_AsyncQuery.response := TAP_AsyncQuery.response qf\<rparr>"
    by (rule finished_effect(1) [OF fin])
  have "location qf = location (q\<lparr>TAP_AsyncQuery.response := TAP_AsyncQuery.response qf\<rparr>)"
    and "jobid qf = jobid (q\<lparr>TAP_AsyncQuery.response := TAP_AsyncQuery.response qf\<rparr>)"
    using qf by simp_all
  then have lf: "location qf = location q" and jf: "jobid qf = jobid q" by simp_all
  from assms fin lf show "location q1 = location q"
    by (auto simp: get_results_def Let_def split: sum.splits option.splits if_splits)
  from assms fin jf show "jobid q1 = jobid q"
    by (auto simp: get_results_def Let_def split: sum.splits option.splits if_splits)
  show "jobid q = None \<Longrightarrow> r = Inl TypeError \<and> q1 = q \<and> tr1 = tr"
    using assms fin finished_effect(2) [OF fin]
    by (auto simp: get_results_def)
qed

lemma get_effect:
  assumes "get env sleep wait q tr = Some (r, q1, tr1)"
  shows "location q1 = location q \<and> jobid q1 = jobid q"
proof -
  from assms obtain x where loop: "get_while env sleep wait q tr = Some x"
    by (cases "get_while env sleep wait q tr") (simp_all add: get_def)
  obtain rl ql trl where x: "x = (rl, ql, trl)" by (cases x)
  have ql: "ql = q\<lparr>TAP_AsyncQuery.response := TAP_AsyncQuery.response ql\<rparr>"
    using get_while_effect [OF loop] x by simp
  have "location ql = location (q\<lparr>TAP_AsyncQuery.response := TAP_AsyncQuery.response ql\<rparr>)"
    and "jobid ql = jobid (q\<lparr>TAP_AsyncQuery.response := TAP_AsyncQuery.response ql\<rparr>)"
    using ql by simp_all
  then have l: "location ql = location q" and j: "jobid ql = jobid q" by simp_all
  show ?thesis
  proof (cases rl)
    case (Inl e)
    with assms loop x l j show ?thesis by (simp add: get_def)
  next
    case (Inr u)
    with assms loop x have "get_results env ql trl = (r, q1, tr1)" by (simp add: get_def)
    from get_results_effect(1,2) [OF this] l j show ?thesis by simp
  qed
qed

lemma get_no_jobid:
  assumes "jobid q = None"
  shows "get env sleep wait q tr = Some (Inl TypeError, q, tr)"
proof -
  have "status env q tr = (Inl TypeError, q, tr)" using assms by (simp add: status_def)
  then have "finished env q tr = (Inl TypeError, q, tr)" by (simp add: finished_def)
  then have "get_while env sleep wait q tr = Some (Inl TypeError, q, tr)"
    by (subst get_while.simps) simp
  then show ?thesis by (simp add: get_def)
qed

text \<open>
  Claim C6. A newly constructed job has no location and no identifier. Reading \<^verbatim>\<open>status\<close>
  or \<^verbatim>\<open>finished\<close> and calling \<^verbatim>\<open>get\<close> never change the two, and a \<^verbatim>\<open>submit\<close> that raises
  leaves them unset when they were unset. A \<^verbatim>\<open>submit\<close> that returns has received a response
  to its request whose \<open>location\<close> header is now the job's location; the identifier is the
  part of the location after its last \<open>/\<close> (all of it when it has no \<open>/\<close>). Without an
  identifier \<^verbatim>\<open>status\<close>, \<^verbatim>\<open>finished\<close> and \<^verbatim>\<open>get\<close> raise \<open>TypeError\<close> and send nothing.
\<close>

theorem jobid_unset_until_submit:
  "location (TAP_AsyncQuery_init a h p n) = None \<and> jobid (TAP_AsyncQuery_init a h p n) = None
   \<and> (status env q tr = (rs, q1, tr1) \<longrightarrow> location q1 = location q \<and> jobid q1 = jobid q)
   \<and> (finished env q tr = (rf, q1, tr1) \<longrightarrow> location q1 = location q \<and> jobid q1 = jobid q)
   \<and> (get env sleep wait q tr = Some (rg, q1, tr1)
        \<longrightarrow> location q1 = location q \<and> jobid q1 = jobid q)
   \<and> (submit env silent q tr = (Inl e, q1, tr1) \<and> location q = None \<and> jobid q = None
        \<longrightarrow> location q1 = None \<and> jobid q1 = None)
   \<and> (submit env silent q tr = (Inr u, q1, tr1)
        \<longrightarrow> (\<exists>resp loc j.
               server env tr (submit_request env q) = Inr resp
               \<and> getheader resp ''location'' = Some loc
               \<and> location q1 = Some loc \<and> jobid q1 = Some j
               \<and> ((\<exists>pre. loc = pre @ ''/'' @ j) \<and> CHR ''/'' \<notin> set j
                    \<or> CHR ''/'' \<notin> set loc \<and> j = loc)))
   \<and> (jobid q = None
        \<longrightarrow> status env q tr = (Inl TypeError, q, tr)
            \<and> finished env q tr = (Inl TypeError, q, tr)
            \<and> get env sleep wait q tr = Some (Inl TypeError, q, tr))"
proof (intro conjI impI)
  show "location (TAP_AsyncQuery_init a h p n) = None"
    and "jobid (TAP_AsyncQuery_init a h p n) = None"
    by (simp_all add: TAP_AsyncQuery_init_def)
next
  assume st: "status env q tr = (rs, q1, tr1)"
  have "q1 = q\<lparr>TAP_AsyncQuery.response := TAP_AsyncQuery.response q1\<rparr>"
    by (rule status_effect(1) [OF st])
  then have "location q1 = location (q\<lparr>TAP_AsyncQuery.response := TAP_AsyncQuery.response q1\<rparr>)"
    and "jobid q1 = jobid (q\<lparr>TAP_AsyncQuery.response := TAP_AsyncQuery.response q1\<rparr>)"
    by simp_all
  then show "location q1 = location q" and "jobid q1 = jobid q" by simp_all
next
  assume fin: "finished env q tr = (rf, q1, tr1)"
  have "q1 = q\<lparr>TAP_AsyncQuery.response := TAP_AsyncQuery.response q1\<rparr>"
    by (rule finished_effect(1) [OF fin])
  then have "location q1 = location (q\<lparr>TAP_AsyncQuery.response := TAP_AsyncQuery.response q1\<rparr>)"
    and "jobid q1 = jobid (q\<lparr>TAP_AsyncQuery.response := TAP_AsyncQuery.response q1\<rparr>)"
    by simp_all
  then show "location q1 = location q" and "jobid q1 = jobid q" by simp_all
next
  assume g: "get env sleep wait q tr = Some (rg, q1, tr1)"
  from get_effect [OF g] show "location q1 = location q" and "jobid q1 = jobid q" by simp_all
next
  assume "submit env silent q tr = (Inl e, q1, tr1) \<and> location q = None \<and> jobid q = None"
  then have s: "submit env silent q tr = (Inl e, q1, tr1)"
    and l: "location q = None" and j: "jobid q = None" by simp_all
  from submit_Inl(2) [OF s l] show "location q1 = None" .
  from submit_Inl(1) [OF s] j show "jobid q1 = None" by simp
next
  assume s: "submit env silent q tr = (Inr u, q1, tr1)"
  from submit_Inr [OF s] obtain resp loc where
    "server env tr (submit_request env q) = Inr resp"
    "getheader resp ''location'' = Some loc"
    "location q1 = Some loc"
    "jobid q1 = Some (slice_from loc (rfind loc CHR ''/'' + 1))"
    by blast
  with jobid_of_location [of loc]
  show "\<exists>resp loc j.
               server env tr (submit_request env q) = Inr resp
               \<and> getheader resp ''location'' = Some loc
               \<and> location q1 = Some loc \<and> jobid q1 = Some j
               \<and> ((\<exists>pre. loc = pre @ ''/'' @ j) \<and> CHR ''/'' \<notin> set j
                    \<or> CHR ''/'' \<notin> set loc \<and> j = loc)"
    by blast
next
  assume j: "jobid q = None"
  show st: "status env q tr = (Inl TypeError, q, tr)" using j by (simp add: status_def)
  then show "finished env q tr = (Inl TypeError, q, tr)" by (simp add: finished_def)
  show "get env sleep wait q tr = Some (Inl TypeError, q, tr)" by (rule get_no_jobid [OF j])
qed

lemma after_last_unique:
  assumes "(c::char) \<notin> set j" and "c \<notin> set j'" and "pre @ c # j = pre' @ c # j'"
  shows "j = j'"
proof -
  have "j = slice_from (pre @ c # j) (rfind (pre @ c # j) c + 1)"
    using assms(1) by (simp add: slice_after_last)
  also have "\<dots> = slice_from (pre' @ c # j') (rfind (pre' @ c # j') c + 1)"
    by (simp only: assms(3))
  also have "\<dots> = j'"
    using assms(2) by (rule slice_after_last)
  finally show ?thesis .
qed

text \<open>
  A run against the stub: the new job raises on \<^verbatim>\<open>status\<close>; \<^verbatim>\<open>submit\<close> succeeds and
  gives it the location of the \<open>location\<close> header and the identifier 42.
\<close>

theorem jobid_unset_until_submit_witness:
  "jobid (TAP_AsyncQuery_init ''SELECT 1'' ''example.org'' ''/tap/async'' 80) = None
   \<and> fst (status (stub_env (\<lambda>k. ''QUEUED''))
             (TAP_AsyncQuery_init ''SELECT 1'' ''example.org'' ''/tap/async'' 80) [])
      = Inl TypeError
   \<and> fst (submit (stub_env (\<lambda>k. ''QUEUED'')) True
             (TAP_AsyncQuery_init ''SELECT 1'' ''example.org'' ''/tap/async'' 80) [])
      = Inr ()
   \<and> location (fst (snd (submit (stub_env (\<lambda>k. ''QUEUED'')) True
             (TAP_AsyncQuery_init ''SELECT 1'' ''example.org'' ''/tap/async'' 80) [])))
      = Some ''http://example.org/tap/async/42''
   \<and> jobid (fst (snd (submit (stub_env (\<lambda>k. ''QUEUED'')) True
             (TAP_AsyncQuery_init ''SELECT 1'' ''example.org'' ''/tap/async'' 80) [])))
      = Some ''42''"
proof -
  let ?env = "stub_env (\<lambda>k. ''QUEUED'') :: string env"
  let ?q = "TAP_AsyncQuery_init ''SELECT 1'' ''example.org'' ''/tap/async'' 80"
  let ?url = "''http://example.org/tap/async/42''"
  obtain q1 tr1 where s: "submit ?env True ?q [] = (Inr (), q1, tr1)"
    by (simp add: submit_def stub_env_def Let_def)
  have hdr: "getheader resp ''location'' = Some ?url"
    if "server ?env [] (submit_request ?env ?q) = Inr resp" for resp
    using that by (auto simp: stub_env_def)
  note inst = jobid_unset_until_submit
    [of "''SELECT 1''" "''example.org''" "''/tap/async''" 80 ?env ?q "[]"
        "Inl TypeError" q1 tr1 "Inl TypeError" 0 True "Inl TypeError" True TypeError "()"]
  from inst have j0: "jobid ?q = None"
    by (elim conjE) assumption
  from inst have
    "jobid ?q = None \<longrightarrow> status ?env ?q [] = (Inl TypeError, ?q, [])
            \<and> finished ?env ?q [] = (Inl TypeError, ?q, [])
            \<and> get ?env 0 True ?q [] = Some (Inl TypeError, ?q, [])"
    by (elim conjE) assumption
  with j0 have a: "status ?env ?q [] = (Inl TypeError, ?q, [])" by simp
  from inst have
    "submit ?env True ?q [] = (Inr (), q1, tr1)
        \<longrightarrow> (\<exists>resp loc j.
               server ?env [] (submit_request ?env ?q) = Inr resp
               \<and> getheader resp ''location'' = Some loc
               \<and> location q1 = Some loc \<and> jobid q1 = Some j
               \<and> ((\<exists>pre. loc = pre @ ''/'' @ j) \<and> CHR ''/'' \<notin> set j
                    \<or> CHR ''/'' \<notin> set loc \<and> j = loc))"
    by (elim conjE) assumption
  with s obtain resp loc j where
    r1: "server ?env [] (submit_request ?env ?q) = Inr resp"
    and r2: "getheader resp ''location'' = Some loc"
    and r3: "location q1 = Some loc" and r4: "jobid q1 = Some j"
    and r5: "(\<exists>pre. loc = pre @ ''/'' @ j) \<and> CHR ''/'' \<notin> set j
             \<or> CHR ''/'' \<notin> set loc \<and> j = loc"
    by blast
  from hdr [OF r1] r2 have loc: "loc = ?url" by simp
  have "CHR ''/'' \<in> set loc" unfolding loc by simp
  with r5 obtain pre where pre': "loc = pre @ ''/'' @ j" and nj: "CHR ''/'' \<notin> set j"
    by blast
  from pre' loc have pre: "?url = pre @ ''/'' @ j" by simp
  have "pre @ CHR ''/'' # j = ''http://example.org/tap/async'' @ CHR ''/'' # ''42''"
    using pre by simp
  moreover have "CHR ''/'' \<notin> set ''42''" by simp
  ultimately have "j = ''42''"
    using nj by (intro after_last_unique [of "CHR ''/''" j "''42''" pre "''http://example.org/tap/async''"])
  show ?thesis
    unfolding a s using j0 r3 r4 loc \<open>j = ''42''\<close> by simp
qed

subsection \<open>Queries through a service\<close>

lemma submit_kwargs_silent:
  "submit_kwargs env [] q tr = submit env False q tr"
  "submit_kwargs env [(''silent'', b)] q tr = submit env b q tr"
  by (simp_all add: submit_kwargs_def)

lemma submit_kwargs_Inr:
  assumes "submit_kwargs env kwargs q tr = (Inr u, q1, tr1)"
  shows "\<exists>b. submit env b q tr = (Inr u, q1, tr1)"
  using assms by (auto simp: submit_kwargs_def split: if_splits)

lemma query_async_returned:
  assumes "query_async env s a sub kwargs tr = (Inr q, tr1)"
  shows "TAP_AsyncQuery.host q = TAP_Service.host s"
    and "TAP_AsyncQuery.port q = TAP_Service.port s"
    and "TAP_AsyncQuery.path q = TAP_Service.path s @ ''/async''"
    and "adql q = a"
    and "sub \<longleftrightarrow> jobid q \<noteq> None"
    and "sub \<longleftrightarrow> (\<exists>evs. tr1 = tr @ Sent (submit_request env
            (TAP_AsyncQuery_init a (TAP_Service.host s) (TAP_Service.path s @ ''/async'')
               (TAP_Service.port s))) # evs)"
    and "\<not> sub \<Longrightarrow> tr1 = tr"
proof -
  let ?q0 = "TAP_AsyncQuery_init a (TAP_Service.host s) (TAP_Service.path s @ ''/async'')
               (TAP_Service.port s)"
  have all: "TAP_AsyncQuery.host q = TAP_Service.host s
    \<and> TAP_AsyncQuery.port q = TAP_Service.port s
    \<and> TAP_AsyncQuery.path q = TAP_Service.path s @ ''/async''
    \<and> adql q = a
    \<and> (sub \<longleftrightarrow> jobid q \<noteq> None)
    \<and> (sub \<longleftrightarrow> (\<exists>evs. tr1 = tr @ Sent (submit_request env ?q0) # evs))
    \<and> (\<not> sub \<longrightarrow> tr1 = tr)"
  proof (cases sub)
    case False
    with assms have "q = ?q0" and "tr1 = tr" by (simp_all add: query_async_def)
    with False show ?thesis by (simp add: TAP_AsyncQuery_init_def)
  next
    case True
    with assms obtain u where "submit_kwargs env kwargs ?q0 tr = (Inr u, q, tr1)"
      by (auto simp: query_async_def Let_def split: prod.splits sum.splits)
    from submit_kwargs_Inr [OF this] obtain b where "submit env b ?q0 tr = (Inr u, q, tr1)"
      by blast
    from submit_Inr [OF this] obtain resp loc evs where
      q: "q = ?q0\<lparr>TAP_AsyncQuery.response := Some resp, location := Some loc,
                    jobid := Some (slice_from loc (rfind loc CHR ''/'' + 1))\<rparr>"
      and tr1: "tr1 = tr @ Sent (submit_request env ?q0) # evs"
      by blast
    from tr1 have "\<exists>evs. tr1 = tr @ Sent (submit_request env ?q0) # evs" by blast
    with True q show ?thesis by (simp add: TAP_AsyncQuery_init_def)
  qed
  from all show "TAP_AsyncQuery.host q = TAP_Service.host s"
    and "TAP_AsyncQuery.port q = TAP_Service.port s"
    and "TAP_AsyncQuery.path q = TAP_Service.path s @ ''/async''"
    and "adql q = a"
    and "sub \<longleftrightarrow> jobid q \<noteq> None"
    and "sub \<longleftrightarrow> (\<exists>evs. tr1 = tr @ Sent (submit_request env ?q0) # evs)"
    and "\<not> sub \<Longrightarrow> tr1 = tr"
    by blast+
qed

text \<open>
  Claim C7. \<^verbatim>\<open>query_async\<close> builds a job with the query, the host and the port of the
  service and the path of the service followed by \<^verbatim>\<open>/async\<close> (the job is a value of its
  own: nothing done to the service afterwards changes it). With \<^verbatim>\<open>submit\<close> false it returns
  that job as it is and sends nothing. With \<^verbatim>\<open>submit\<close> true it calls \<^verbatim>\<open>submit\<close> with the
  given options and returns the job as \<^verbatim>\<open>submit\<close> left it; what \<^verbatim>\<open>submit\<close> raises goes to
  the caller. Whenever a job is returned it has the host, port and path above, and it has
  been submitted (the request was sent, the identifier is set) exactly when \<^verbatim>\<open>submit\<close> is
  true.
\<close>

theorem query_async_job:
  "(\<not> sub \<longrightarrow>
      query_async env s a sub kwargs tr =
        (Inr (TAP_AsyncQuery_init a (TAP_Service.host s) (TAP_Service.path s @ ''/async'')
                (TAP_Service.port s)), tr))
   \<and> (sub \<longrightarrow>
      query_async env s a sub kwargs tr =
        (case submit_kwargs env kwargs
                (TAP_AsyncQuery_init a (TAP_Service.host s) (TAP_Service.path s @ ''/async'')
                   (TAP_Service.port s)) tr of
           (Inl e, q1, tr1) \<Rightarrow> (Inl e, tr1)
         | (Inr u, q1, tr1) \<Rightarrow> (Inr q1, tr1)))
   \<and> submit_kwargs env [] q0 tr = submit env False q0 tr
   \<and> submit_kwargs env [(''silent'', b)] q0 tr = submit env b q0 tr
   \<and> (query_async env s a sub kwargs tr = (Inr q, tr')
       \<longrightarrow> TAP_AsyncQuery.host q = TAP_Service.host s
           \<and> TAP_AsyncQuery.port q = TAP_Service.port s
           \<and> TAP_AsyncQuery.path q = TAP_Service.path s @ ''/async''
           \<and> adql q = a
           \<and> (sub \<longleftrightarrow> jobid q \<noteq> None)
           \<and> (sub \<longleftrightarrow> (\<exists>evs. tr' = tr @ Sent (submit_request env
                  (TAP_AsyncQuery_init a (TAP_Service.host s) (TAP_Service.path s @ ''/async'')
                     (TAP_Service.port s))) # evs))
           \<and> (\<not> sub \<longrightarrow> tr' = tr))"
proof (intro conjI impI)
  assume "\<not> sub"
  then show "query_async env s a sub kwargs tr =
        (Inr (TAP_AsyncQuery_init a (TAP_Service.host s) (TAP_Service.path s @ ''/async'')
                (TAP_Service.port s)), tr)"
    by (simp add: query_async_def)
next
  assume sub
  then show "query_async env s a sub kwargs tr =
        (case submit_kwargs env kwargs
                (TAP_AsyncQuery_init a (TAP_Service.host s) (TAP_Service.path s @ ''/async'')
                   (TAP_Service.port s)) tr of
           (Inl e, q1, tr1) \<Rightarrow> (Inl e, tr1)
         | (Inr u, q1, tr1) \<Rightarrow> (Inr q1, tr1))"
    by (simp add: query_async_def)
next
  show "submit_kwargs env [] q0 tr = submit env False q0 tr"
    and "submit_kwargs env [(''silent'', b)] q0 tr = submit env b q0 tr"
    by (rule submit_kwargs_silent)+
next
  assume r: "query_async env s a sub kwargs tr = (Inr q, tr')"
  note facts = query_async_returned [OF r]
  show "TAP_AsyncQuery.host q = TAP_Service.host s" by (rule facts(1))
  show "TAP_AsyncQuery.port q = TAP_Service.port s" by (rule facts(2))
  show "TAP_AsyncQuery.path q = TAP_Service.path s @ ''/async''" by (rule facts(3))
  show "adql q = a" by (rule facts(4))
  show "sub \<longleftrightarrow> jobid q \<noteq> None" by (rule facts(5))
  show "sub \<longleftrightarrow> (\<exists>evs. tr' = tr @ Sent (submit_request env
                  (TAP_AsyncQuery_init a (TAP_Service.host s) (TAP_Service.path s @ ''/async'')
                     (TAP_Service.port s))) # evs)" by (rule facts(6))
  show "tr' = tr" if "\<not> sub" using that by (rule facts(7))
qed

text \<open>
  Two runs against the stub with the preset \<open>TAPVizieR\<close>: unsubmitted, and submitted
  silently.
\<close>

theorem query_async_job_witness:
  "query_async (stub_env (\<lambda>k. ''QUEUED'')) TAPVizieR ''SELECT 1'' False [] []
     = (Inr (TAP_AsyncQuery_init ''SELECT 1'' ''tapvizier.u-strasbg.fr''
               ''/TAPVizieR/tap/async'' 80), [])
   \<and> (\<exists>q tr1. query_async (stub_env (\<lambda>k. ''QUEUED'')) TAPVizieR ''SELECT 1'' True
                 [(''silent'', True)] [] = (Inr q, tr1)
         \<and> TAP_AsyncQuery.host q = ''tapvizier.u-strasbg.fr''
         \<and> TAP_AsyncQuery.port q = 80
         \<and> TAP_AsyncQuery.path q = ''/TAPVizieR/tap/async''
         \<and> jobid q \<noteq> None)"
proof (intro conjI)
  let ?env = "stub_env (\<lambda>k. ''QUEUED'') :: string env"
  have sv: "TAP_Service.host TAPVizieR = ''tapvizier.u-strasbg.fr''"
    "TAP_Service.port TAPVizieR = 80" "TAP_Service.path TAPVizieR = ''/TAPVizieR/tap''"
    by (simp_all add: TAPVizieR_def TAP_Service_init_def)
  note inst1 = query_async_job [of False ?env TAPVizieR "''SELECT 1''" "[]" "[]"]
  from inst1 [THEN conjunct1]
  have "query_async ?env TAPVizieR ''SELECT 1'' False [] [] =
        (Inr (TAP_AsyncQuery_init ''SELECT 1'' (TAP_Service.host TAPVizieR)
                (TAP_Service.path TAPVizieR @ ''/async'') (TAP_Service.port TAPVizieR)), [])"
    by simp
  then show "query_async ?env TAPVizieR ''SELECT 1'' False [] []
     = (Inr (TAP_AsyncQuery_init ''SELECT 1'' ''tapvizier.u-strasbg.fr''
               ''/TAPVizieR/tap/async'' 80), [])"
    by (simp add: sv)
  obtain q tr1 where r: "query_async ?env TAPVizieR ''SELECT 1'' True [(''silent'', True)] []
      = (Inr q, tr1)"
    by (simp add: query_async_def submit_kwargs_def submit_def stub_env_def Let_def)
  note inst2 = query_async_job [of True ?env TAPVizieR "''SELECT 1''" "[(''silent'', True)]" "[]"
      _ _ q tr1]
  from inst2 [THEN conjunct2, THEN conjunct2, THEN conjunct2, THEN conjunct2] r
  have "TAP_AsyncQuery.host q = ''tapvizier.u-strasbg.fr''
         \<and> TAP_AsyncQuery.port q = 80
         \<and> TAP_AsyncQuery.path q = ''/TAPVizieR/tap/async''
         \<and> jobid q \<noteq> None"
    by (simp add: sv)
  with r show "\<exists>q tr1. query_async ?env TAPVizieR ''SELECT 1'' True
                 [(''silent'', True)] [] = (Inr q, tr1)
         \<and> TAP_AsyncQuery.host q = ''tapvizier.u-strasbg.fr''
         \<and> TAP_AsyncQuery.port q = 80
         \<and> TAP_AsyncQuery.path q = ''/TAPVizieR/tap/async''
         \<and> jobid q \<noteq> None"
    by blast
qed

text \<open>
  Claim C4. \<^verbatim>\<open>query(adql, sync=True)\<close> sends one request: the query and the four fixed
  form parameters, posted to the endpoint followed by \<^verbatim>\<open>/sync\<close>. When the server answers
  and the body parses as a VOTable, the table is returned and the service is unchanged.
  When the server answers and parsing fails, no exception is raised, nothing is returned,
  and the response is stored in the attribute \<open>response\<close> of the service. (When the request
  itself fails, the exception goes to the caller.)
\<close>

theorem query_sync:
  "sync_request s a =
     requests_post (''http://'' @ TAP_Service.host s @ TAP_Service.path s @ ''/sync'')
       [(''query'', a), (''request'', ''doQuery''), (''lang'', ''adql''),
        (''format'', ''votable''), (''phase'', ''run'')]
   \<and> (server env tr (sync_request s a) = Inr r \<and> Table_read env (resp_body r) = Inr table
       \<longrightarrow> query env s a True tr = (Inr (Table table), s, tr @ [Sent (sync_request s a)]))
   \<and> (server env tr (sync_request s a) = Inr r \<and> Table_read env (resp_body r) = Inl e
       \<longrightarrow> query env s a True tr =
             (Inr Nothing, s\<lparr>TAP_Service.response := Some r\<rparr>, tr @ [Sent (sync_request s a)]))
   \<and> (server env tr (sync_request s a) = Inl e'
       \<longrightarrow> query env s a True tr = (Inl e', s, tr @ [Sent (sync_request s a)]))"
  by (simp add: sync_request_def tap_endpoint_def query_def Let_def)

text \<open>
  Two runs against the stub with the preset \<open>GaiaArchive\<close>: a body that parses, and the
  body \<^verbatim>\<open>ERROR\<close>, which does not.
\<close>

theorem query_sync_witness:
  "fst (query (stub_env (\<lambda>k. ''<VOTABLE/>'')) GaiaArchive ''SELECT 1'' True [])
     = Inr (Table ''<VOTABLE/>'')
   \<and> fst (query (stub_env (\<lambda>k. ''ERROR'')) GaiaArchive ''SELECT 1'' True []) = Inr Nothing
   \<and> map_option resp_body (TAP_Service.response (fst (snd
        (query (stub_env (\<lambda>k. ''ERROR'')) GaiaArchive ''SELECT 1'' True [])))) = Some ''ERROR''
   \<and> snd (snd (query (stub_env (\<lambda>k. ''ERROR'')) GaiaArchive ''SELECT 1'' True []))
     = [Sent (requests_post ''http://gea.esac.esa.int/tap-server/tap/sync''
               [(''query'', ''SELECT 1''), (''request'', ''doQuery''), (''lang'', ''adql''),
                (''format'', ''votable''), (''phase'', ''run'')])]"
proof -
  let ?ok = "stub_env (\<lambda>k. ''<VOTABLE/>'') :: string env"
  let ?bad = "stub_env (\<lambda>k. ''ERROR'') :: string env"
  let ?hdr = "\<lambda>h. if h = ''location'' then Some ''http://example.org/tap/async/42'' else None"
  let ?r1 = "\<lparr>resp_status = 200, resp_reason = ''OK'', getheader = ?hdr,
              resp_body = ''<VOTABLE/>''\<rparr>"
  let ?r2 = "\<lparr>resp_status = 200, resp_reason = ''OK'', getheader = ?hdr,
              resp_body = ''ERROR''\<rparr>"
  let ?rq = "sync_request GaiaArchive ''SELECT 1''"
  have rq: "?rq = requests_post ''http://gea.esac.esa.int/tap-server/tap/sync''
               [(''query'', ''SELECT 1''), (''request'', ''doQuery''), (''lang'', ''adql''),
                (''format'', ''votable''), (''phase'', ''run'')]"
    by (simp add: sync_request_def tap_endpoint_def GaiaArchive_def TAP_Service_init_def)
  have s1: "server ?ok [] ?rq = Inr ?r1 \<and> Table_read ?ok (resp_body ?r1) = Inr ''<VOTABLE/>''"
    by (simp add: stub_env_def)
  have s2: "server ?bad [] ?rq = Inr ?r2 \<and> Table_read ?bad (resp_body ?r2) = Inl ParseError"
    by (simp add: stub_env_def)
  note i1 = query_sync [of GaiaArchive "''SELECT 1''" ?ok "[]" ?r1 "''<VOTABLE/>''" ParseError
      ParseError]
  note i2 = query_sync [of GaiaArchive "''SELECT 1''" ?bad "[]" ?r2 "''''" ParseError ParseError]
  from i1 [THEN conjunct2, THEN conjunct1] s1
  have a: "query ?ok GaiaArchive ''SELECT 1'' True [] =
             (Inr (Table ''<VOTABLE/>''), GaiaArchive, [] @ [Sent ?rq])"
    by (rule mp)
  from i2 [THEN conjunct2, THEN conjunct2, THEN conjunct1] s2
  have b: "query ?bad GaiaArchive ''SELECT 1'' True [] =
             (Inr Nothing, GaiaArchive\<lparr>TAP_Service.response := Some ?r2\<rparr>, [] @ [Sent ?rq])"
    by (rule mp)
  show ?thesis
    unfolding a b rq by simp
qed

subsection \<open>The name resolver\<close>

lemma select_first_empty:
  "select_step (n, None) t = [] \<Longrightarrow> select_step (n, Some k) t = []"
  by (simp add: select_step_def)

lemma no_Resolver_no_field:
  assumes "xpath tree path_Resolver = []"
  shows "xpath tree path_jradeg = []" and "xpath tree path_jdedeg = []"
proof -
  let ?T = "concat (map (select_step (''Target'', None)) [tree])"
  have *: "concat (map (select_step (''Resolver'', Some 1)) ?T) = []"
    if "concat (map (select_step (''Resolver'', None)) ?T) = []"
    using that by (auto intro: select_first_empty)
  show "xpath tree path_jradeg = []"
    using assms * by (auto simp: xpath_def path_Resolver_def path_jradeg_def)
  show "xpath tree path_jdedeg = []"
    using assms * by (auto simp: xpath_def path_Resolver_def path_jdedeg_def)
qed

lemma resolve_answered:
  assumes "server env tr (resolve_request name) = Inr r"
    and "fromstring env (resp_body r) = Inr tree"
  shows "xpath tree path_jradeg = [] \<Longrightarrow>
           resolve env name tr = (Inr Empty, tr @ [Sent (resolve_request name)])"
    and "xpath tree path_jradeg = a # as \<Longrightarrow> xpath tree path_jdedeg = d # ds \<Longrightarrow>
         float_text env a = Inr ra \<Longrightarrow> float_text env d = Inr dec \<Longrightarrow>
           resolve env name tr = (Inr (Coordinates ra dec), tr @ [Sent (resolve_request name)])"
  using assms
  by (simp_all add: resolve_def resolve_request_def path_jradeg_def path_jdedeg_def Let_def
        getitem_def)

text \<open>
  Claim C5, as the code has it. When the name-resolution service answers with a document,
  what \<^verbatim>\<open>resolve\<close> returns depends on the elements that
  \<^verbatim>\<open>/Sesame/Target/Resolver[1]/jradeg\<close> selects, the \<open>jradeg\<close> fields of the first resolver
  entry of each target. When there is none, in particular when no resolver entry is present
  at all, it returns the empty list. When there is one, and \<^verbatim>\<open>.../jdedeg\<close> selects one too,
  and the texts of the first of each are read by \<^verbatim>\<open>float\<close>, it returns the pair of the two
  floats.
\<close>

theorem resolve_coordinates:
  "server env tr (resolve_request name) = Inr r \<and> fromstring env (resp_body r) = Inr tree
   \<longrightarrow> (xpath tree path_Resolver = [] \<longrightarrow> xpath tree path_jradeg = [])
       \<and> (xpath tree path_jradeg = []
            \<longrightarrow> resolve env name tr = (Inr Empty, tr @ [Sent (resolve_request name)]))
       \<and> (xpath tree path_jradeg = a # as \<and> xpath tree path_jdedeg = d # ds
            \<and> float_text env a = Inr ra \<and> float_text env d = Inr dec
            \<longrightarrow> resolve env name tr =
                  (Inr (Coordinates ra dec), tr @ [Sent (resolve_request name)]))"
  using no_Resolver_no_field(1) [of tree] resolve_answered [of env tr name r tree]
  by blast

lemma xpath_sesame_found:
  "xpath sesame_found path_jradeg = [ETree ''jradeg'' (Some ''10.68'') []]"
  "xpath sesame_found path_jdedeg = [ETree ''jdedeg'' (Some ''41.27'') []]"
  by (simp_all add: xpath_def sesame_found_def path_jradeg_def path_jdedeg_def select_step_def)

lemma xpath_sesame_nothing_found:
  "xpath sesame_nothing_found path_jradeg = []"
  "xpath sesame_nothing_found path_Resolver
     = [ETree ''Resolver'' None [ETree ''INFO'' (Some ''*** Nothing found ***'') []]]"
  by (simp_all add: xpath_def sesame_nothing_found_def path_jradeg_def path_Resolver_def
        select_step_def)

lemma xpath_sesame_no_resolver: "xpath sesame_no_resolver path_Resolver = []"
  by (simp add: xpath_def sesame_no_resolver_def path_Resolver_def select_step_def)

text \<open>
  Two runs against the stub, whose XML parser is replaced by one that returns a fixed
  document: one resolver entry with \<open>jradeg = 10.68\<close> and \<open>jdedeg = 41.27\<close>, and no resolver
  entry.
\<close>

theorem resolve_coordinates_witness:
  "fst (resolve ((stub_env (\<lambda>k. ''<Sesame/>''))\<lparr>fromstring := \<lambda>b. Inr sesame_found\<rparr>)
          ''M31'' [])
     = Inr (Coordinates (1068 / 100) (4127 / 100))
   \<and> xpath sesame_no_resolver path_Resolver = []
   \<and> fst (resolve ((stub_env (\<lambda>k. ''<Sesame/>''))\<lparr>fromstring := \<lambda>b. Inr sesame_no_resolver\<rparr>)
          ''xyzzy'' [])
     = Inr Empty"
proof -
  let ?hdr = "\<lambda>h. if h = ''location'' then Some ''http://example.org/tap/async/42'' else None"
  let ?r = "\<lparr>resp_status = 200, resp_reason = ''OK'', getheader = ?hdr,
             resp_body = ''<Sesame/>''\<rparr>"
  let ?e1 = "(stub_env (\<lambda>k. ''<Sesame/>''))\<lparr>fromstring := \<lambda>b. Inr sesame_found\<rparr> :: string env"
  let ?e2 = "(stub_env (\<lambda>k. ''<Sesame/>''))\<lparr>fromstring := \<lambda>b. Inr sesame_no_resolver\<rparr>
               :: string env"
  have p1: "server ?e1 [] (resolve_request ''M31'') = Inr ?r
             \<and> fromstring ?e1 (resp_body ?r) = Inr sesame_found"
    by (simp add: stub_env_def)
  have f1: "xpath sesame_found path_jradeg = ETree ''jradeg'' (Some ''10.68'') [] # []
            \<and> xpath sesame_found path_jdedeg = ETree ''jdedeg'' (Some ''41.27'') [] # []
            \<and> float_text ?e1 (ETree ''jradeg'' (Some ''10.68'') []) = Inr (1068 / 100)
            \<and> float_text ?e1 (ETree ''jdedeg'' (Some ''41.27'') []) = Inr (4127 / 100)"
    by (simp add: xpath_sesame_found float_text_def stub_env_def)
  note i1 = resolve_coordinates [of ?e1 "[]" "''M31''" ?r sesame_found
      "ETree ''jradeg'' (Some ''10.68'') []" "[]" "ETree ''jdedeg'' (Some ''41.27'') []" "[]"
      "1068 / 100" "4127 / 100"]
  from i1 [THEN mp, OF p1, THEN conjunct2, THEN conjunct2, THEN mp, OF f1]
  have a: "resolve ?e1 ''M31'' [] =
             (Inr (Coordinates (1068 / 100) (4127 / 100)), [] @ [Sent (resolve_request ''M31'')])" .
  have p2: "server ?e2 [] (resolve_request ''xyzzy'') = Inr ?r
             \<and> fromstring ?e2 (resp_body ?r) = Inr sesame_no_resolver"
    by (simp add: stub_env_def)
  note i2 = resolve_coordinates [of ?e2 "[]" "''xyzzy''" ?r sesame_no_resolver
      "ETree [] None []" "[]" "ETree [] None []" "[]" 0 0]
  note c2 = i2 [THEN mp, OF p2]
  from c2 [THEN conjunct1, THEN mp, OF xpath_sesame_no_resolver]
  have "xpath sesame_no_resolver path_jradeg = []" .
  from c2 [THEN conjunct2, THEN conjunct1, THEN mp, OF this]
  have b: "resolve ?e2 ''xyzzy'' [] = (Inr Empty, [] @ [Sent (resolve_request ''xyzzy'')])" .
  show ?thesis
    unfolding a b by (simp add: xpath_sesame_no_resolver)
qed

text \<open>
  Claim C5 as the specification words it returns the pair whenever a resolver entry is
  present. For the answer to a name that the resolver does not know, a resolver entry with
  a message and no coordinates, the code returns the empty list.
\<close>

theorem resolve_entry_without_coordinates_counterexample:
  "xpath sesame_nothing_found path_Resolver \<noteq> []
   \<and> fst (resolve ((stub_env (\<lambda>k. ''<Sesame/>''))\<lparr>fromstring := \<lambda>b. Inr sesame_nothing_found\<rparr>)
            ''xyzzy'' [])
       = Inr Empty"
proof -
  let ?hdr = "\<lambda>h. if h = ''location'' then Some ''http://example.org/tap/async/42'' else None"
  let ?r = "\<lparr>resp_status = 200, resp_reason = ''OK'', getheader = ?hdr,
             resp_body = ''<Sesame/>''\<rparr>"
  let ?e = "(stub_env (\<lambda>k. ''<Sesame/>''))\<lparr>fromstring := \<lambda>b. Inr sesame_nothing_found\<rparr>
              :: string env"
  have "server ?e [] (resolve_request ''xyzzy'') = Inr ?r"
    and "fromstring ?e (resp_body ?r) = Inr sesame_nothing_found"
    by (simp_all add: stub_env_def)
  from resolve_answered(1) [OF this xpath_sesame_nothing_found(1)]
  have "resolve ?e ''xyzzy'' [] = (Inr Empty, [] @ [Sent (resolve_request ''xyzzy'')])" .
  then show ?thesis by (simp add: xpath_sesame_nothing_found)
qed

subsection \<open>The timing wrapper\<close>

lemma timeit_pretty_print_time_Inr: "\<exists>s. timeit_pretty_print_time t = Inr s"
proof -
  have "timeit_pretty_print_time t = pretty_print_time t"
    by (simp add: timeit_pretty_print_time_def pretty_print_time_def)
  with pretty_print_time_cases [of t] show ?thesis by auto
qed

lemma timeit_exit_entered:
  "fst (timeit_exit None (timeit_enter m t0) t1 tr) = Inl TypeError"
  "fst (timeit_exit (Some d) (timeit_enter m t0) t1 tr) = Inr ()"
  using timeit_pretty_print_time_Inr [of "t1 - t0"]
  by (auto simp: timeit_exit_def timeit_enter_def Let_def)

lemma timeit_call_no_func: "timeit_call display (timeit_init None) args t0 t1 tr = (Inr None, tr)"
  by (simp add: timeit_call_def timeit_init_def)

lemma timeit_call_display:
  assumes "func self = Some f"
  shows "fst (timeit_call (Some d) self args t0 t1 tr)
           = (case f args of Inl e \<Rightarrow> Inl e | Inr v \<Rightarrow> Inr (Some v))"
proof -
  let ?cm = "timeit_enter (timeit_init None :: ('a, 'b) timeit) t0"
  obtain r cm1 tr1 where ex: "timeit_exit (Some d) ?cm t1 tr = (r, cm1, tr1)"
    by (cases "timeit_exit (Some d) ?cm t1 tr")
  with timeit_exit_entered(2) [of d "timeit_init None :: ('a, 'b) timeit" t0 t1 tr]
  have "r = Inr ()" by simp
  with ex assms show ?thesis
    by (simp add: timeit_call_def Let_def split: sum.splits)
qed

lemma timeit_call_no_display:
  assumes "func self = Some f"
  shows "fst (timeit_call None self args t0 t1 tr) = Inl TypeError"
proof -
  let ?cm = "timeit_enter (timeit_init None :: ('a, 'b) timeit) t0"
  obtain r cm1 tr1 where ex: "timeit_exit None ?cm t1 tr = (r, cm1, tr1)"
    by (cases "timeit_exit None ?cm t1 tr")
  with timeit_exit_entered(1) [of "timeit_init None :: ('a, 'b) timeit" t0 t1 tr]
  have "r = Inl TypeError" by simp
  with ex assms show ?thesis
    by (simp add: timeit_call_def Let_def)
qed

text \<open>
  Claim C10. A \<^verbatim>\<open>timeit\<close> built without a function returns nothing when called. A
  \<^verbatim>\<open>timeit\<close> built with \<open>f\<close> is meant to return what \<open>f\<close> returns, and does when the
  notebook's \<^verbatim>\<open>display\<close> was imported. When it was not, the module sets \<^verbatim>\<open>display\<close> to
  \<open>None\<close>, \<^verbatim>\<open>__exit__\<close> calls it, and the call of the wrapper raises \<open>TypeError\<close> in place
  of the value: here \<open>f\<close> is the successor function, called on 41, with one second between
  the two readings of the clock.
\<close>

theorem timeit_call_display_missing:
  "fst (timeit_call None (timeit_init (Some (\<lambda>n. Inr (Suc n) :: error + nat))) 41 0 1 [])
     = Inl TypeError
   \<and> timeit_call (Some Printed) (timeit_init (Some (\<lambda>n. Inr (Suc n) :: error + nat))) 41 0 1 []
     = (Inr (Some 42), [Printed ''*Execution time*: 1 s''])
   \<and> fst (timeit_call None (timeit_init (None :: (nat \<Rightarrow> error + nat) option)) 41 0 1 [])
     = Inr None"
proof (intro conjI)
  show "fst (timeit_call None (timeit_init (Some (\<lambda>n. Inr (Suc n) :: error + nat))) 41 0 1 [])
     = Inl TypeError"
    by (rule timeit_call_no_display) (simp add: timeit_init_def)
  have "timeit_pretty_print_time 1 = Inr ''1 s''"
    using ex_one by (simp add: timeit_pretty_print_time_def pretty_print_time_def)
  then show "timeit_call (Some Printed) (timeit_init (Some (\<lambda>n. Inr (Suc n) :: error + nat)))
        41 0 1 []
     = (Inr (Some 42), [Printed ''*Execution time*: 1 s''])"
    by (simp add: timeit_call_def timeit_init_def timeit_enter_def timeit_exit_def timeit_str_def
          Let_def)
  show "fst (timeit_call None (timeit_init (None :: (nat \<Rightarrow> error + nat) option)) 41 0 1 [])
     = Inr None"
    by (simp add: timeit_call_no_func)
qed

end
